theory Spec2Isabelle
  imports Complex_Main
begin

section \<open>Go values used by the reconciliation store and engine\<close>

text \<open>
  Go's \<open>int64\<close> values are modelled as integers; where the source computes with them
  (\<open>lowestTimestamp - 1\<close>) the wrap-around is written out with \<open>wrap64\<close>.
  A \<open>time.Time\<close> is the instant it denotes, counted in nanoseconds from the Unix epoch;
  \<open>time.Time{}\<close> is midnight of January 1 of year 1 (UTC).
\<close>

type_synonym int64 = int
type_synonym gotime = int

definition MinInt64 :: int where
  "MinInt64 = - 9223372036854775808"

definition MaxInt64 :: int where
  "MaxInt64 = 9223372036854775807"

definition wrap64 :: "int \<Rightarrow> int64" where
  "wrap64 x = (x + 9223372036854775808) mod 18446744073709551616 - 9223372036854775808"

definition zero_time :: gotime where
  "zero_time = - 62135596800 * 1000000000"

definition IsZero :: "gotime \<Rightarrow> bool" where
  "IsZero t = (t = zero_time)"

definition Unix :: "gotime \<Rightarrow> int64" where
  "Unix t = t div 1000000000"

definition time_Unix :: "int64 \<Rightarrow> gotime" where
  "time_Unix sec = sec * 1000000000"

definition Before :: "gotime \<Rightarrow> gotime \<Rightarrow> bool" where
  "Before t u = (t < u)"

definition After :: "gotime \<Rightarrow> gotime \<Rightarrow> bool" where
  "After t u = (t > u)"

subsection \<open>jellyfin.Item\<close>

record UserData =
  PlaybackPositionTicks :: int64
  PlayedPercentage :: real
  PlayCount :: int
  IsFavorite :: bool
  LastPlayedDate :: gotime
  Played :: bool

record ProviderIDs =
  IMDB :: string
  TMDB :: string
  TVDB :: string

record Item =
  Name :: string
  ServerID :: string
  ID :: string
  UserData :: UserData
  ProviderIDs :: ProviderIDs
  SeriesName :: string
  SeasonName :: string
  Runtime :: int64

section \<open>Identity keying\<close>

subsection \<open>SanitizeAndParseInt64 (sqlite.go)\<close>

text \<open>
  A Go string is read as its sequence of runes; the runes modelled are those up to
  U+00FF, for which \<open>unicode.IsDigit\<close> is the test \<open>'0' <= r && r <= '9'\<close>.
\<close>

datatype NumError = ErrSyntax | ErrRange

definition IsDigit :: "char \<Rightarrow> bool" where
  "IsDigit r = (48 \<le> (of_char r :: nat) \<and> (of_char r :: nat) \<le> 57)"

definition digit_val :: "char \<Rightarrow> nat" where
  "digit_val r = of_char r - 48"

definition digits_val :: "string \<Rightarrow> nat" where
  "digits_val s = foldl (\<lambda>acc r. acc * 10 + digit_val r) 0 s"

text \<open>\<open>strconv.ParseUint(s, 10, 64)\<close> without its range check, which \<open>ParseInt\<close> subsumes.\<close>

definition ParseUint :: "string \<Rightarrow> NumError + nat" where
  "ParseUint s =
     (if s = [] then Inl ErrSyntax
      else if \<not> list_all IsDigit s then Inl ErrSyntax
      else Inr (digits_val s))"

definition ParseInt :: "string \<Rightarrow> NumError + int64" where
  "ParseInt s =
     (if s = [] then Inl ErrSyntax
      else
        let neg = (hd s = CHR ''-'');
            body = (if hd s = CHR ''+'' \<or> hd s = CHR ''-'' then tl s else s)
        in case ParseUint body of
             Inl e \<Rightarrow> Inl e
           | Inr un \<Rightarrow>
               if \<not> neg \<and> int un \<ge> 9223372036854775808 then Inl ErrRange
               else if neg \<and> int un > 9223372036854775808 then Inl ErrRange
               else Inr (if neg then - int un else int un))"

definition SanitizeAndParseInt64 :: "string \<Rightarrow> int64" where
  "SanitizeAndParseInt64 input =
     (let cleaned = filter (\<lambda>r. IsDigit r \<or> r = CHR ''-'') input
      in if cleaned = [] \<or> cleaned = ''-'' then 0
         else case ParseInt cleaned of Inl e \<Rightarrow> 0 | Inr result \<Rightarrow> result)"

text \<open>\<open>sql.NullInt64{Int64: v, Valid: v != 0}\<close>: an invalid value is stored as NULL.\<close>

definition NullInt64 :: "int64 \<Rightarrow> int64 option" where
  "NullInt64 v = (if v \<noteq> 0 then Some v else None)"

subsection \<open>Snapshot rows and the insert parameters\<close>

text \<open>
  The columns of \<open>movies\<close> and \<open>episodes\<close> as the migration creates them, without the
  autoincrement \<open>id\<close>, which no statement of the store reads or writes. A table is the list
  of its rows in insertion order.
\<close>

record movie_row =
  server :: string
  local_id :: string
  name :: string
  imdb_id :: "int64 option"
  tmdb_id :: "int64 option"
  runtime :: int64
  watched_date :: int64
  watched_progress :: real
  watched_position_ticks :: int64
  is_favorite :: bool
  last_seen :: int64

record episode_row = movie_row +
  series_name :: string
  season_name :: string
  tvdb_id :: "int64 option"

record InsertMovieParams =
  mp_Server :: string
  mp_Name :: string
  mp_LocalID :: string
  mp_ImdbID :: "int64 option"
  mp_TmdbID :: "int64 option"
  mp_WatchedDate :: int64
  mp_WatchedPositionTicks :: int64
  mp_WatchedProgress :: real
  mp_Runtime :: int64
  mp_IsFavorite :: bool

record InsertEpisodeParams = InsertMovieParams +
  ep_SeriesName :: string
  ep_SeasonName :: string
  ep_TvdbID :: "int64 option"

definition MovieToInsertMovieParam :: "string \<Rightarrow> Item \<Rightarrow> InsertMovieParams" where
  "MovieToInsertMovieParam srv movie =
     (let imdbId = SanitizeAndParseInt64 (IMDB (ProviderIDs movie));
          tmdbId = SanitizeAndParseInt64 (TMDB (ProviderIDs movie));
          watchedDate = (if \<not> IsZero (LastPlayedDate (UserData movie))
                         then Unix (LastPlayedDate (UserData movie)) else 0)
      in \<lparr> mp_Server = srv, mp_Name = Name movie, mp_LocalID = ID movie,
           mp_ImdbID = NullInt64 imdbId, mp_TmdbID = NullInt64 tmdbId,
           mp_WatchedDate = watchedDate,
           mp_WatchedPositionTicks = PlaybackPositionTicks (UserData movie),
           mp_WatchedProgress = PlayedPercentage (UserData movie),
           mp_Runtime = Runtime movie,
           mp_IsFavorite = IsFavorite (UserData movie) \<rparr>)"

definition EpisodeToInsertEpisodeParam :: "string \<Rightarrow> Item \<Rightarrow> InsertEpisodeParams" where
  "EpisodeToInsertEpisodeParam srv episode =
     (let imdbId = SanitizeAndParseInt64 (IMDB (ProviderIDs episode));
          tmdbId = SanitizeAndParseInt64 (TMDB (ProviderIDs episode));
          tvdbId = SanitizeAndParseInt64 (TVDB (ProviderIDs episode));
          watchedDate = (if \<not> IsZero (LastPlayedDate (UserData episode))
                         then Unix (LastPlayedDate (UserData episode)) else 0)
      in \<lparr> mp_Server = srv, mp_Name = Name episode, mp_LocalID = ID episode,
           mp_ImdbID = NullInt64 imdbId, mp_TmdbID = NullInt64 tmdbId,
           mp_WatchedDate = watchedDate,
           mp_WatchedPositionTicks = PlaybackPositionTicks (UserData episode),
           mp_WatchedProgress = PlayedPercentage (UserData episode),
           mp_Runtime = Runtime episode,
           mp_IsFavorite = IsFavorite (UserData episode),
           ep_SeriesName = SeriesName episode, ep_SeasonName = SeasonName episode,
           ep_TvdbID = NullInt64 tvdbId \<rparr>)"

subsection \<open>The match key of the diff queries (movies.sql, changelog.sql)\<close>

text \<open>SQLite renders an INTEGER as its decimal digits when it is concatenated or cast to text.\<close>

definition digit_char :: "nat \<Rightarrow> char" where
  "digit_char d = ''0123456789'' ! d"

fun nat_to_text :: "nat \<Rightarrow> string" where
  "nat_to_text n =
     (if n < 10 then [digit_char n]
      else nat_to_text (n div 10) @ [digit_char (n mod 10)])"

declare nat_to_text.simps [simp del]

definition int_to_text :: "int \<Rightarrow> string" where
  "int_to_text i = (if i < 0 then CHR ''-'' # nat_to_text (nat (- i)) else nat_to_text (nat i))"

text \<open>
  \<open>WHEN col IS NOT NULL AND col != '' THEN CONCAT(prefix, col)\<close> on an INTEGER column: an
  integer never equals a text value, so the branch is taken by every value that is not NULL.
\<close>

definition movie_match_key :: "'a movie_row_scheme \<Rightarrow> string" where
  "movie_match_key r =
     (case imdb_id r of
        Some v \<Rightarrow> ''imdb_'' @ int_to_text v
      | None \<Rightarrow>
          (case tmdb_id r of
             Some v \<Rightarrow> ''tmdb_'' @ int_to_text v
           | None \<Rightarrow> ''name_'' @ name r @ ''_'' @ int_to_text (runtime r)))"

definition episode_match_key :: "'a episode_row_scheme \<Rightarrow> string" where
  "episode_match_key r =
     (case imdb_id r of
        Some v \<Rightarrow> ''imdb_'' @ int_to_text v
      | None \<Rightarrow>
          (case tmdb_id r of
             Some v \<Rightarrow> ''tmdb_'' @ int_to_text v
           | None \<Rightarrow>
               (case tvdb_id r of
                  Some v \<Rightarrow> ''tvdb_'' @ int_to_text v
                | None \<Rightarrow>
                    ''name_'' @ name r @ ''_'' @ series_name r @ ''_'' @ season_name r @ ''_''
                    @ int_to_text (runtime r))))"

text \<open>
  The row that the VALUES clause of \<open>InsertMovie\<close> / \<open>InsertEpisode\<close> describes. The
  statements name no \<open>last_seen\<close> column; \<open>ls\<close> is the value the store gives it.
\<close>

definition movie_values :: "InsertMovieParams \<Rightarrow> int64 \<Rightarrow> movie_row" where
  "movie_values p ls =
     \<lparr> server = mp_Server p, local_id = mp_LocalID p, name = mp_Name p,
       imdb_id = mp_ImdbID p, tmdb_id = mp_TmdbID p, runtime = mp_Runtime p,
       watched_date = mp_WatchedDate p, watched_progress = mp_WatchedProgress p,
       watched_position_ticks = mp_WatchedPositionTicks p, is_favorite = mp_IsFavorite p,
       last_seen = ls \<rparr>"

definition episode_values :: "InsertEpisodeParams \<Rightarrow> int64 \<Rightarrow> episode_row" where
  "episode_values p ls =
     \<lparr> server = mp_Server p, local_id = mp_LocalID p, name = mp_Name p,
       imdb_id = mp_ImdbID p, tmdb_id = mp_TmdbID p, runtime = mp_Runtime p,
       watched_date = mp_WatchedDate p, watched_progress = mp_WatchedProgress p,
       watched_position_ticks = mp_WatchedPositionTicks p, is_favorite = mp_IsFavorite p,
       last_seen = ls,
       series_name = ep_SeriesName p, season_name = ep_SeasonName p, tvdb_id = ep_TvdbID p \<rparr>"

text \<open>The match key the diff query computes for an item of a server, once it is stored.\<close>

definition movie_key_of_item :: "string \<Rightarrow> Item \<Rightarrow> int64 \<Rightarrow> string" where
  "movie_key_of_item srv item ls = movie_match_key (movie_values (MovieToInsertMovieParam srv item) ls)"

definition episode_key_of_item :: "string \<Rightarrow> Item \<Rightarrow> int64 \<Rightarrow> string" where
  "episode_key_of_item srv item ls =
     episode_match_key (episode_values (EpisodeToInsertEpisodeParam srv item) ls)"

subsection \<open>The match key as the specification words it\<close>

text \<open>
  Sanitization as worded: only decimal digits and a leading minus are retained; an empty
  result or \<open>-\<close> is no id; any other result is the id.
\<close>

definition spec_sanitize :: "string \<Rightarrow> string" where
  "spec_sanitize s =
     (case filter (\<lambda>r. IsDigit r \<or> r = CHR ''-'') s of
        [] \<Rightarrow> []
      | c # cs \<Rightarrow> c # filter IsDigit cs)"

definition signed_val :: "string \<Rightarrow> int" where
  "signed_val s =
     (case s of
        [] \<Rightarrow> 0
      | c # cs \<Rightarrow> (if c = CHR ''-'' then - int (digits_val cs) else int (digits_val s)))"

definition spec_provider_id :: "string \<Rightarrow> int option" where
  "spec_provider_id s =
     (let c = spec_sanitize s in if c = [] \<or> c = ''-'' then None else Some (signed_val c))"

definition spec_movie_key :: "Item \<Rightarrow> string" where
  "spec_movie_key item =
     (case spec_provider_id (IMDB (ProviderIDs item)) of
        Some v \<Rightarrow> ''imdb_'' @ int_to_text v
      | None \<Rightarrow>
          (case spec_provider_id (TMDB (ProviderIDs item)) of
             Some v \<Rightarrow> ''tmdb_'' @ int_to_text v
           | None \<Rightarrow> ''name_'' @ Name item @ ''_'' @ int_to_text (Runtime item)))"

definition spec_episode_key :: "Item \<Rightarrow> string" where
  "spec_episode_key item =
     (case spec_provider_id (IMDB (ProviderIDs item)) of
        Some v \<Rightarrow> ''imdb_'' @ int_to_text v
      | None \<Rightarrow>
          (case spec_provider_id (TMDB (ProviderIDs item)) of
             Some v \<Rightarrow> ''tmdb_'' @ int_to_text v
           | None \<Rightarrow>
               (case spec_provider_id (TVDB (ProviderIDs item)) of
                  Some v \<Rightarrow> ''tvdb_'' @ int_to_text v
                | None \<Rightarrow>
                    ''name_'' @ Name item @ ''_'' @ SeriesName item @ ''_'' @ SeasonName item
                    @ ''_'' @ int_to_text (Runtime item))))"

text \<open>
  The same tiers with the usability test the code applies: every minus sign is retained, and
  the retained text is an id only if it is an optional minus followed by digits, fits a
  signed 64-bit integer and is not zero.
\<close>

definition usable_id :: "string \<Rightarrow> int option" where
  "usable_id s =
     (let kept = filter (\<lambda>r. IsDigit r \<or> r = CHR ''-'') s;
          ds = (case kept of [] \<Rightarrow> [] | c # cs \<Rightarrow> if c = CHR ''-'' then cs else kept);
          v = signed_val kept
      in if ds \<noteq> [] \<and> list_all IsDigit ds \<and> MinInt64 \<le> v \<and> v \<le> MaxInt64 \<and> v \<noteq> 0
         then Some v else None)"

definition tiered_movie_key :: "Item \<Rightarrow> string" where
  "tiered_movie_key item =
     (case usable_id (IMDB (ProviderIDs item)) of
        Some v \<Rightarrow> ''imdb_'' @ int_to_text v
      | None \<Rightarrow>
          (case usable_id (TMDB (ProviderIDs item)) of
             Some v \<Rightarrow> ''tmdb_'' @ int_to_text v
           | None \<Rightarrow> ''name_'' @ Name item @ ''_'' @ int_to_text (Runtime item)))"

definition tiered_episode_key :: "Item \<Rightarrow> string" where
  "tiered_episode_key item =
     (case usable_id (IMDB (ProviderIDs item)) of
        Some v \<Rightarrow> ''imdb_'' @ int_to_text v
      | None \<Rightarrow>
          (case usable_id (TMDB (ProviderIDs item)) of
             Some v \<Rightarrow> ''tmdb_'' @ int_to_text v
           | None \<Rightarrow>
               (case usable_id (TVDB (ProviderIDs item)) of
                  Some v \<Rightarrow> ''tvdb_'' @ int_to_text v
                | None \<Rightarrow>
                    ''name_'' @ Name item @ ''_'' @ SeriesName item @ ''_'' @ SeasonName item
                    @ ''_'' @ int_to_text (Runtime item))))"

section \<open>The reconciliation store (sqlite.go and its queries)\<close>

text \<open>
  The store is modelled as the contents of its tables. A statement fails only where a
  constraint of the schema rejects it; failures of the connection itself are not modelled.
\<close>

datatype error =
    NotNullConstraint string
  | CheckConstraint string
  | ErrNoRows
  | NotSeenSinceZero
  | UnknownItemType string
  | InvalidType string
  | ValidationFailed
  | RequestFailed string
  | DivideByZero

type_synonym ItemType = string

definition ItemMovie :: ItemType where
  "ItemMovie = ''Movie''"

definition ItemEpisode :: ItemType where
  "ItemEpisode = ''Episode''"

record changelog_row =
  cl_server :: string
  cl_local_id :: string
  cl_date :: int64
  cl_new_watched_date :: int64
  cl_new_watched_progress :: real
  cl_new_watched_position_ticks :: int64
  cl_new_is_favorite :: bool

text \<open>The \<open>state\<close> table has one row per \<open>(server, type)\<close>: a map from that pair to \<open>last_sync\<close>.\<close>

record JellyDb =
  movies :: "movie_row list"
  episodes :: "episode_row list"
  changelog :: "changelog_row list"
  state :: "string \<times> string \<rightharpoonup> int64"

subsection \<open>InsertMovie, InsertEpisode: insert or, on conflict, update\<close>

definition same_item :: "'a movie_row_scheme \<Rightarrow> 'a movie_row_scheme \<Rightarrow> bool" where
  "same_item r n = (server r = server n \<and> local_id r = local_id n)"

text \<open>The \<open>DO UPDATE SET\<close> lists: every column named there takes the value of the new row.\<close>

definition movie_excluded :: "movie_row \<Rightarrow> movie_row \<Rightarrow> movie_row" where
  "movie_excluded r e =
     r\<lparr> name := name e, imdb_id := imdb_id e, tmdb_id := tmdb_id e, runtime := runtime e,
        watched_date := watched_date e, watched_progress := watched_progress e,
        watched_position_ticks := watched_position_ticks e, is_favorite := is_favorite e \<rparr>"

definition episode_excluded :: "episode_row \<Rightarrow> episode_row \<Rightarrow> episode_row" where
  "episode_excluded r e =
     r\<lparr> name := name e, series_name := series_name e, season_name := season_name e,
        imdb_id := imdb_id e, tmdb_id := tmdb_id e, tvdb_id := tvdb_id e, runtime := runtime e,
        watched_date := watched_date e, watched_progress := watched_progress e,
        watched_position_ticks := watched_position_ticks e, is_favorite := is_favorite e \<rparr>"

definition on_conflict_update ::
  "('r \<Rightarrow> 'r \<Rightarrow> bool) \<Rightarrow> ('r \<Rightarrow> 'r \<Rightarrow> 'r) \<Rightarrow> 'r \<Rightarrow> 'r list \<Rightarrow> 'r list" where
  "on_conflict_update same upd new t =
     (if list_ex (\<lambda>r. same r new) t
      then map (\<lambda>r. if same r new then upd r new else r) t
      else t @ [new])"

text \<open>
  Neither INSERT names \<open>last_seen\<close>, so a row receives the column's default there. The
  migration declares \<open>last_seen INTEGER NOT NULL\<close> without a default; \<open>dflt\<close> is the default
  the store evaluates for the statement, \<open>None\<close> for the schema as the migration creates
  it, in which case the NOT NULL constraint rejects the statement (it is checked before the
  uniqueness conflict is looked at).
\<close>

definition InsertMovie :: "int64 option \<Rightarrow> InsertMovieParams \<Rightarrow> movie_row list \<Rightarrow> error + movie_row list" where
  "InsertMovie dflt p t =
     (case dflt of
        None \<Rightarrow> Inl (NotNullConstraint ''movies.last_seen'')
      | Some ls \<Rightarrow> Inr (on_conflict_update same_item movie_excluded (movie_values p ls) t))"

definition InsertEpisode :: "int64 option \<Rightarrow> InsertEpisodeParams \<Rightarrow> episode_row list \<Rightarrow> error + episode_row list" where
  "InsertEpisode dflt p t =
     (case dflt of
        None \<Rightarrow> Inl (NotNullConstraint ''episodes.last_seen'')
      | Some ls \<Rightarrow> Inr (on_conflict_update same_item episode_excluded (episode_values p ls) t))"

text \<open>The loop of a transaction: the first failing statement ends it.\<close>

fun exec_each :: "('p \<Rightarrow> 't \<Rightarrow> error + 't) \<Rightarrow> 'p list \<Rightarrow> 't \<Rightarrow> error + 't" where
  "exec_each stmt [] t = Inr t"
| "exec_each stmt (p # ps) t =
     (case stmt p t of Inl e \<Rightarrow> Inl e | Inr t' \<Rightarrow> exec_each stmt ps t')"

text \<open>On an error the deferred \<open>tx.Rollback()\<close> leaves the table as it was.\<close>

definition InsertMovies :: "int64 option \<Rightarrow> string \<Rightarrow> Item list \<Rightarrow> JellyDb \<Rightarrow> error option \<times> JellyDb" where
  "InsertMovies dflt srv ms d =
     (case exec_each (InsertMovie dflt) (map (MovieToInsertMovieParam srv) ms) (movies d) of
        Inl e \<Rightarrow> (Some e, d)
      | Inr t \<Rightarrow> (None, d\<lparr>movies := t\<rparr>))"

definition InsertEpisodes :: "int64 option \<Rightarrow> string \<Rightarrow> Item list \<Rightarrow> JellyDb \<Rightarrow> error option \<times> JellyDb" where
  "InsertEpisodes dflt srv es d =
     (case exec_each (InsertEpisode dflt) (map (EpisodeToInsertEpisodeParam srv) es) (episodes d) of
        Inl e \<Rightarrow> (Some e, d)
      | Inr t \<Rightarrow> (None, d\<lparr>episodes := t\<rparr>))"

definition InsertItems :: "int64 option \<Rightarrow> string \<Rightarrow> ItemType \<Rightarrow> Item list \<Rightarrow> JellyDb \<Rightarrow> error option \<times> JellyDb" where
  "InsertItems dflt srv itemType items d =
     (if itemType = ItemEpisode then InsertEpisodes dflt srv items d
      else if itemType = ItemMovie then InsertMovies dflt srv items d
      else (Some (UnknownItemType itemType), d))"

subsection \<open>RemoveItemsNotSeenSince\<close>

text \<open>
  Modelled from the spec: the statements \<open>RemoveMoviesNotSeenSince\<close> and
  \<open>RemoveEpisodesNotSeenSince\<close> are not among the query files; the specification gives them
  as \<open>delete from <table> where server = ? and last_seen < since_unix\<close>.
\<close>

definition delete_not_seen_since :: "string \<Rightarrow> int64 \<Rightarrow> 'a movie_row_scheme list \<Rightarrow> 'a movie_row_scheme list" where
  "delete_not_seen_since srv since t = filter (\<lambda>r. \<not> (server r = srv \<and> last_seen r < since)) t"

definition RemoveMoviesNotSeenSince :: "string \<Rightarrow> gotime \<Rightarrow> JellyDb \<Rightarrow> JellyDb" where
  "RemoveMoviesNotSeenSince srv since d = d\<lparr>movies := delete_not_seen_since srv (Unix since) (movies d)\<rparr>"

definition RemoveEpisodesNotSeenSince :: "string \<Rightarrow> gotime \<Rightarrow> JellyDb \<Rightarrow> JellyDb" where
  "RemoveEpisodesNotSeenSince srv since d =
     d\<lparr>episodes := delete_not_seen_since srv (Unix since) (episodes d)\<rparr>"

definition RemoveItemsNotSeenSince :: "string \<Rightarrow> ItemType \<Rightarrow> gotime \<Rightarrow> JellyDb \<Rightarrow> error option \<times> JellyDb" where
  "RemoveItemsNotSeenSince srv itemType notSeenSince d =
     (if IsZero notSeenSince then (Some NotSeenSinceZero, d)
      else if itemType = ItemEpisode then (None, RemoveEpisodesNotSeenSince srv notSeenSince d)
      else if itemType = ItemMovie then (None, RemoveMoviesNotSeenSince srv notSeenSince d)
      else (Some (UnknownItemType itemType), d))"

subsection \<open>The diff queries\<close>

text \<open>
  Both queries have the same shape and differ in the match key and in the columns they
  return. \<open>max_remote\<close> is the CTE \<open>max_remote_movies\<close> at one match key, \<open>best_remote\<close> the
  CTE \<open>best_remote_movies\<close>: its window holds the rows of the other servers whose
  \<open>watched_date\<close> is that maximum, so \<open>ORDER BY watched_date DESC\<close> does not order them, and
  \<open>FIRST_VALUE\<close> with \<open>SELECT DISTINCT\<close> leaves one row per key. Which of several such rows
  is first is the engine's choice; here it is the first in table order. The result of the
  final join is listed in the order of the local rows (the query has no ORDER BY).
\<close>

definition local_rows :: "string \<Rightarrow> 'a movie_row_scheme list \<Rightarrow> 'a movie_row_scheme list" where
  "local_rows srv t = filter (\<lambda>r. server r = srv) t"

definition max_remote ::
  "('a movie_row_scheme \<Rightarrow> string) \<Rightarrow> string \<Rightarrow> 'a movie_row_scheme list \<Rightarrow> string \<Rightarrow> int64 option" where
  "max_remote key srv t k =
     (case map watched_date (filter (\<lambda>r. server r \<noteq> srv \<and> watched_date r > 0 \<and> key r = k) t) of
        [] \<Rightarrow> None
      | d # ds \<Rightarrow> Some (fold max ds d))"

definition best_remote ::
  "('a movie_row_scheme \<Rightarrow> string) \<Rightarrow> string \<Rightarrow> 'a movie_row_scheme list \<Rightarrow> string
     \<Rightarrow> 'a movie_row_scheme option" where
  "best_remote key srv t k =
     (case max_remote key srv t k of
        None \<Rightarrow> None
      | Some m \<Rightarrow>
          (case filter (\<lambda>r. server r \<noteq> srv \<and> key r = k \<and> watched_date r = m) t of
             [] \<Rightarrow> None
           | r # rs \<Rightarrow> Some r))"

definition stale_pairs ::
  "('a movie_row_scheme \<Rightarrow> string) \<Rightarrow> string \<Rightarrow> 'a movie_row_scheme list
     \<Rightarrow> ('a movie_row_scheme \<times> 'a movie_row_scheme) list" where
  "stale_pairs key srv t =
     concat (map (\<lambda>le. case best_remote key srv t (key le) of
                          None \<Rightarrow> []
                        | Some bre \<Rightarrow>
                            if watched_date bre > watched_date le \<and> watched_date bre > 0
                            then [(le, bre)] else [])
                 (local_rows srv t))"

record ItemWithUpdatedUserData =
  u_LocalID :: string
  u_Name :: string
  u_SeriesName :: string
  u_WatchedDate :: int64
  u_WatchedProgress :: real
  u_WatchedPositionTicks :: int64
  u_IsFavorite :: bool

definition movie_result :: "movie_row \<times> movie_row \<Rightarrow> ItemWithUpdatedUserData" where
  "movie_result p =
     (case p of (le, bre) \<Rightarrow>
        \<lparr> u_LocalID = local_id le, u_Name = name bre, u_SeriesName = [],
          u_WatchedDate = watched_date bre, u_WatchedProgress = watched_progress bre,
          u_WatchedPositionTicks = watched_position_ticks bre, u_IsFavorite = is_favorite bre \<rparr>)"

definition episode_result :: "episode_row \<times> episode_row \<Rightarrow> ItemWithUpdatedUserData" where
  "episode_result p =
     (case p of (le, bre) \<Rightarrow>
        \<lparr> u_LocalID = local_id le, u_Name = name bre, u_SeriesName = series_name bre,
          u_WatchedDate = watched_date bre, u_WatchedProgress = watched_progress bre,
          u_WatchedPositionTicks = watched_position_ticks bre, u_IsFavorite = is_favorite bre \<rparr>)"

definition GetMovieWithGreatestWatchedDate :: "string \<Rightarrow> movie_row list \<Rightarrow> ItemWithUpdatedUserData list" where
  "GetMovieWithGreatestWatchedDate srv t = map movie_result (stale_pairs movie_match_key srv t)"

definition GetEpisodeWithGreatestWatchedDate :: "string \<Rightarrow> episode_row list \<Rightarrow> ItemWithUpdatedUserData list" where
  "GetEpisodeWithGreatestWatchedDate srv t = map episode_result (stale_pairs episode_match_key srv t)"

definition GetMoviesWithUpdatedUserData :: "JellyDb \<Rightarrow> string \<Rightarrow> ItemWithUpdatedUserData list" where
  "GetMoviesWithUpdatedUserData d srv = GetMovieWithGreatestWatchedDate srv (movies d)"

definition GetEpisodesWithUpdatedUserData :: "JellyDb \<Rightarrow> string \<Rightarrow> ItemWithUpdatedUserData list" where
  "GetEpisodesWithUpdatedUserData d srv = GetEpisodeWithGreatestWatchedDate srv (episodes d)"

subsection \<open>Changelog and watermark\<close>

record ChangelogData =
  cd_LocalID :: string
  cd_NewWatchedDate :: int64
  cd_NewWatchedProgress :: real
  cd_NewWatchedPositionTicks :: int64
  cd_NewIsFavorite :: bool

definition InsertChangelog :: "gotime \<Rightarrow> string \<Rightarrow> ChangelogData \<Rightarrow> JellyDb \<Rightarrow> JellyDb" where
  "InsertChangelog start srv change d =
     d\<lparr>changelog := changelog d @
        [\<lparr> cl_server = srv, cl_local_id = cd_LocalID change, cl_date = Unix start,
           cl_new_watched_date = cd_NewWatchedDate change,
           cl_new_watched_progress = cd_NewWatchedProgress change,
           cl_new_watched_position_ticks = cd_NewWatchedPositionTicks change,
           cl_new_is_favorite = cd_NewIsFavorite change \<rparr>]\<rparr>"

text \<open>
  \<open>UpsertState\<close> (part of the state queries): the table declares
  \<open>last_sync INTEGER NOT NULL CHECK (last_sync > 0)\<close>, so a value that is not positive is
  rejected; otherwise the row of \<open>(server, type)\<close> is inserted or replaced.
\<close>

definition UpsertState :: "string \<Rightarrow> ItemType \<Rightarrow> gotime \<Rightarrow> JellyDb \<Rightarrow> error + JellyDb" where
  "UpsertState srv itemType ts d =
     (if Unix ts > 0 then Inr (d\<lparr>state := (state d)((srv, itemType) \<mapsto> Unix ts)\<rparr>)
      else Inl (CheckConstraint ''last_sync > 0''))"

text \<open>\<open>GetState\<close>: a missing row is \<open>sql.ErrNoRows\<close>, returned with the zero time.\<close>

definition GetState :: "JellyDb \<Rightarrow> string \<Rightarrow> ItemType \<Rightarrow> gotime \<times> error option" where
  "GetState d srv itemType =
     (case state d (srv, itemType) of
        None \<Rightarrow> (zero_time, Some ErrNoRows)
      | Some lastSync \<Rightarrow> (time_Unix lastSync, None))"

subsection \<open>What the diff queries are to return\<close>

text \<open>
  A local row is stale when a row of another server with the same match key has a
  \<open>watched_date\<close> above its own and above 0. A best remote row for a local row is a row of
  another server with the same key whose \<open>watched_date\<close> no other such row exceeds.
\<close>

definition newer_remote ::
  "('a movie_row_scheme \<Rightarrow> string) \<Rightarrow> string \<Rightarrow> 'a movie_row_scheme list \<Rightarrow> 'a movie_row_scheme \<Rightarrow> bool" where
  "newer_remote key srv t le =
     list_ex (\<lambda>r. server r \<noteq> srv \<and> key r = key le \<and> watched_date r > watched_date le
                  \<and> watched_date r > 0) t"

definition is_best_remote ::
  "('a movie_row_scheme \<Rightarrow> string) \<Rightarrow> string \<Rightarrow> 'a movie_row_scheme list \<Rightarrow> 'a movie_row_scheme
     \<Rightarrow> 'a movie_row_scheme \<Rightarrow> bool" where
  "is_best_remote key srv t le bre =
     (list_ex (\<lambda>r. r = bre) t \<and> server bre \<noteq> srv \<and> key bre = key le \<and>
      list_all (\<lambda>r. server r \<noteq> srv \<and> key r = key le \<longrightarrow> watched_date r \<le> watched_date bre) t)"

subsection \<open>The uniqueness constraint of the snapshot tables\<close>

definition item_key :: "'a movie_row_scheme \<Rightarrow> string \<times> string" where
  "item_key r = (server r, local_id r)"

definition unique_items :: "'a movie_row_scheme list \<Rightarrow> bool" where
  "unique_items t = distinct (map item_key t)"

text \<open>
  A batch of upserts whose new rows are built by \<open>row\<close>, and what a batch does to one row
  of a table that already holds every key of the batch.
\<close>

definition upsert_all ::
  "('a movie_row_scheme \<Rightarrow> 'a movie_row_scheme \<Rightarrow> 'a movie_row_scheme) \<Rightarrow> ('p \<Rightarrow> 'a movie_row_scheme)
     \<Rightarrow> 'p list \<Rightarrow> 'a movie_row_scheme list \<Rightarrow> 'a movie_row_scheme list" where
  "upsert_all upd row ps t = fold (\<lambda>p. on_conflict_update same_item upd (row p)) ps t"

definition settle ::
  "('a movie_row_scheme \<Rightarrow> 'a movie_row_scheme \<Rightarrow> 'a movie_row_scheme) \<Rightarrow> ('p \<Rightarrow> 'a movie_row_scheme)
     \<Rightarrow> 'p list \<Rightarrow> 'a movie_row_scheme \<Rightarrow> 'a movie_row_scheme" where
  "settle upd row ps r = fold (\<lambda>p r. if same_item r (row p) then upd r (row p) else r) ps r"

subsection \<open>Example data\<close>

text \<open>
  The movie of the store's tests (\<open>Imdb = 133093\<close>, \<open>Tmdb = 603\<close>, runtime 5000) as an item
  with chosen provider ids, and as a stored row of a server with a chosen \<open>watched_date\<close>.
\<close>

definition never_played :: UserData where
  "never_played =
     \<lparr> PlaybackPositionTicks = 0, PlayedPercentage = 0, PlayCount = 0, IsFavorite = False,
       LastPlayedDate = zero_time, Played = False \<rparr>"

definition matrix_item :: "string \<Rightarrow> string \<Rightarrow> string \<Rightarrow> Item" where
  "matrix_item item_id imdb tmdb =
     \<lparr> Name = ''The Matrix'', ServerID = [], ID = item_id, UserData = never_played,
       ProviderIDs = \<lparr> IMDB = imdb, TMDB = tmdb, TVDB = [] \<rparr>,
       SeriesName = [], SeasonName = [], Runtime = 5000 \<rparr>"

definition matrix_row :: "string \<Rightarrow> string \<Rightarrow> int64 \<Rightarrow> bool \<Rightarrow> int64 \<Rightarrow> movie_row" where
  "matrix_row srv lid wd fav ls =
     \<lparr> server = srv, local_id = lid, name = ''The Matrix'', imdb_id = Some 133093,
       tmdb_id = Some 603, runtime = 5000, watched_date = wd, watched_progress = 0,
       watched_position_ticks = wd * 7, is_favorite = fav, last_seen = ls \<rparr>"

definition pilot_row :: "string \<Rightarrow> string \<Rightarrow> int64 \<Rightarrow> episode_row" where
  "pilot_row srv lid wd =
     \<lparr> server = srv, local_id = lid, name = ''Pilot'', imdb_id = None, tmdb_id = None,
       runtime = 2700, watched_date = wd, watched_progress = 0, watched_position_ticks = 0,
       is_favorite = False, last_seen = 0,
       series_name = ''Lost'', season_name = ''Season 1'', tvdb_id = None \<rparr>"

definition empty_db :: JellyDb where
  "empty_db = \<lparr> movies = [], episodes = [], changelog = [], state = Map.empty \<rparr>"

section \<open>The server driver: paginated listing (client.go)\<close>

record ItemQueryOpts =
  Limit :: int
  Since :: "gotime option"
  StartIndex :: int
  SortBy :: string
  SortOrder :: string
  Type :: ItemType

record ItemsResponse =
  r_Items :: "Item list"
  r_TotalRecordCount :: int
  r_StartIndex :: int

definition IsDelta :: "ItemQueryOpts \<Rightarrow> bool" where
  "IsDelta opts = (Since opts \<noteq> None)"

text \<open>The validator tags of \<open>ItemQueryOpts\<close>.\<close>

definition valid_opts :: "ItemQueryOpts \<Rightarrow> bool" where
  "valid_opts opts =
     (25 \<le> Limit opts \<and> Limit opts \<le> 1000 \<and> 0 \<le> StartIndex opts \<and>
      (Type opts = ''Movie'' \<or> Type opts = ''Episode''))"

definition lastElement :: "'a list \<Rightarrow> 'a option" where
  "lastElement s = (if s = [] then None else Some (last s))"

text \<open>
  The part of the loop body that extends \<open>allMovies\<close>: the flag \<open>exceededTimeFilter\<close> and
  the items of the page that are appended.
\<close>

definition page_items :: "gotime option \<Rightarrow> Item list \<Rightarrow> bool \<times> Item list" where
  "page_items since items =
     (case since of
        Some s \<Rightarrow>
          (case lastElement items of
             Some lastEpisode \<Rightarrow>
               if Before (LastPlayedDate (UserData lastEpisode)) s
               then (True, filter (\<lambda>item. After (LastPlayedDate (UserData item)) s) items)
               else (False, items)
           | None \<Rightarrow> (False, items))
      | None \<Rightarrow> (False, items))"

text \<open>
  One request of the loop is \<open>makeRequest\<close> followed by the decoding of its body; the
  server's answer to the request for a start index is the function \<open>page\<close>. The loop has no
  bound of its own: it ends when the server's answers end it.
\<close>

partial_function (option) GetItems_loop ::
  "(int \<Rightarrow> error + ItemsResponse) \<Rightarrow> ItemQueryOpts \<Rightarrow> int \<Rightarrow> Item list
     \<Rightarrow> (error + ItemsResponse) option" where
  "GetItems_loop page opts startIndex allMovies =
     (case page startIndex of
        Inl err \<Rightarrow> Some (Inl err)
      | Inr response \<Rightarrow>
          (let kept = page_items (Since opts) (r_Items response);
               allMovies' = allMovies @ snd kept
           in if int (length (r_Items response)) < Limit opts
                 \<or> startIndex + int (length (r_Items response)) \<ge> r_TotalRecordCount response
                 \<or> fst kept
              then Some (Inr \<lparr> r_Items = allMovies',
                                r_TotalRecordCount = int (length allMovies'), r_StartIndex = 0 \<rparr>)
              else GetItems_loop page opts (startIndex + Limit opts) allMovies'))"

definition GetItems :: "(int \<Rightarrow> error + ItemsResponse) \<Rightarrow> ItemQueryOpts \<Rightarrow> (error + ItemsResponse) option" where
  "GetItems page opts =
     (if \<not> valid_opts opts then Some (Inl ValidationFailed)
      else GetItems_loop page opts (StartIndex opts) [])"

text \<open>
  The response \<open>GetItems\<close> returns for the collected items, and the test of the loop that a
  page ends the listing by its size: the page is short, or the start index plus the items
  returned reaches the reported total.
\<close>

definition listing :: "Item list \<Rightarrow> ItemsResponse" where
  "listing items = \<lparr> r_Items = items, r_TotalRecordCount = int (length items), r_StartIndex = 0 \<rparr>"

definition page_ends :: "ItemQueryOpts \<Rightarrow> int \<Rightarrow> ItemsResponse \<Rightarrow> bool" where
  "page_ends opts startIndex response =
     (int (length (r_Items response)) < Limit opts \<or>
      startIndex + int (length (r_Items response)) \<ge> r_TotalRecordCount response)"

text \<open>A server that holds the catalogue \<open>cat\<close> and answers every request with its slice.\<close>

definition serve :: "Item list \<Rightarrow> int \<Rightarrow> int \<Rightarrow> error + ItemsResponse" where
  "serve cat limit startIndex =
     Inr \<lparr> r_Items = take (nat limit) (drop (nat startIndex) cat),
           r_TotalRecordCount = int (length cat), r_StartIndex = startIndex \<rparr>"

definition played_at :: "string \<Rightarrow> gotime \<Rightarrow> Item" where
  "played_at item_id t =
     \<lparr> Name = ''The Matrix'', ServerID = [], ID = item_id,
       UserData = never_played\<lparr>LastPlayedDate := t\<rparr>,
       ProviderIDs = \<lparr> IMDB = ''tt0133093'', TMDB = ''603'', TVDB = [] \<rparr>,
       SeriesName = [], SeasonName = [], Runtime = 5000 \<rparr>"

section \<open>The reconciliation engine\<close>

subsection \<open>The interfaces the engine depends on\<close>

record UserDataUpdate =
  upd_IsFavorite :: bool
  upd_PlaybackPositionTicks :: int64
  upd_PlayedPercentage :: real
  upd_PlayCount :: int
  upd_LastPlayedDate :: gotime
  upd_Played :: bool

definition AsUserData :: "ItemWithUpdatedUserData \<Rightarrow> UserDataUpdate" where
  "AsUserData m =
     \<lparr> upd_IsFavorite = u_IsFavorite m, upd_PlaybackPositionTicks = u_WatchedPositionTicks m,
       upd_PlayedPercentage = u_WatchedProgress m, upd_PlayCount = 0,
       upd_LastPlayedDate = time_Unix (u_WatchedDate m), upd_Played = True \<rparr>"

definition getChangelogData :: "ItemWithUpdatedUserData \<Rightarrow> ChangelogData" where
  "getChangelogData item =
     \<lparr> cd_LocalID = u_LocalID item, cd_NewWatchedDate = u_WatchedDate item,
       cd_NewWatchedProgress = u_WatchedProgress item,
       cd_NewWatchedPositionTicks = u_WatchedPositionTicks item,
       cd_NewIsFavorite = u_IsFavorite item \<rparr>"

text \<open>
  \<open>JellyfinClient\<close> is an interface; a client is the outcome of each of its methods: of
  resolving the user id, of listing with given options, and of writing the user-data of an
  item (\<open>None\<close> is a nil error).
\<close>

record JellyfinClient =
  if_GetUserId :: "error + string"
  if_GetItems :: "string \<Rightarrow> ItemQueryOpts \<Rightarrow> error + ItemsResponse"
  if_UpdateUserData :: "string \<Rightarrow> string \<Rightarrow> UserDataUpdate \<Rightarrow> error option"

text \<open>
  The calls the engine makes are recorded in the order it makes them: the entry into the
  per-server worker of either phase, each listing request with its options, and each
  user-data write.
\<close>

datatype call =
    FetchStarted string ItemType
  | ItemsRequested string ItemQueryOpts
  | ApplyStarted string ItemType
  | UserDataPosted string string

record App =
  db :: JellyDb
  counter :: int
  syncIntervalMinutes :: int
  fullSyncIntervalMinutes :: int
  calls :: "call list"

text \<open>
  What a cycle reads from outside: the configured clients, the default the store applies to
  \<open>last_seen\<close>, and the clock as each worker reads it.
\<close>

record Env =
  clients :: "(string \<times> JellyfinClient) list"
  last_seen_default :: "int64 option"
  now_fetch :: "string \<Rightarrow> ItemType \<Rightarrow> gotime"
  now_apply :: "string \<Rightarrow> ItemType \<Rightarrow> gotime"

subsection \<open>getQueryOpts\<close>

text \<open>Go's \<open>/\<close> and \<open>%\<close> on \<open>int32\<close>: truncation towards zero, a panic on a zero divisor.\<close>

definition wrap32 :: "int \<Rightarrow> int" where
  "wrap32 x = (x + 2147483648) mod 4294967296 - 2147483648"

definition go_quo32 :: "int \<Rightarrow> int \<Rightarrow> error + int" where
  "go_quo32 a b =
     (if b = 0 then Inl DivideByZero else Inr (wrap32 (sgn a * sgn b * (\<bar>a\<bar> div \<bar>b\<bar>))))"

definition go_rem32 :: "int \<Rightarrow> int \<Rightarrow> error + int" where
  "go_rem32 a b = (if b = 0 then Inl DivideByZero else Inr (sgn a * (\<bar>a\<bar> mod \<bar>b\<bar>)))"

definition full_opts :: "ItemType \<Rightarrow> ItemQueryOpts" where
  "full_opts itemType =
     \<lparr> Limit = 500, Since = None, StartIndex = 0, SortBy = [], SortOrder = [], Type = itemType \<rparr>"

definition delta_opts :: "gotime \<Rightarrow> ItemType \<Rightarrow> ItemQueryOpts" where
  "delta_opts lastCheck itemType =
     \<lparr> Limit = 25, Since = Some lastCheck, StartIndex = 0, SortBy = ''DatePlayed'',
       SortOrder = ''Descending'', Type = itemType \<rparr>"

definition getQueryOpts :: "App \<Rightarrow> gotime \<Rightarrow> string \<Rightarrow> ItemType \<Rightarrow> error + ItemQueryOpts" where
  "getQueryOpts a lastCheck srv itemType =
     (if IsZero lastCheck then Inr (full_opts itemType)
      else case go_quo32 (fullSyncIntervalMinutes a) (syncIntervalMinutes a) of
             Inl e \<Rightarrow> Inl e
           | Inr q \<Rightarrow>
               (case go_rem32 (counter a) q of
                  Inl e \<Rightarrow> Inl e
                | Inr m \<Rightarrow> if m = 0 then Inr (full_opts itemType)
                           else Inr (delta_opts lastCheck itemType)))"

subsection \<open>Phase A: fetchUpdateFromJellyfin, fetchUpdatesFromJellyfin\<close>

definition record_call :: "call \<Rightarrow> App \<Rightarrow> App" where
  "record_call c a = a\<lparr>calls := calls a @ [c]\<rparr>"

text \<open>
  A failure of \<open>GetState\<close> is logged and its zero time is used. A panic of \<open>getQueryOpts\<close>
  is returned as the error of the worker.
\<close>

definition fetchUpdateFromJellyfin ::
  "int64 option \<Rightarrow> gotime \<Rightarrow> ItemType \<Rightarrow> string \<Rightarrow> JellyfinClient \<Rightarrow> App \<Rightarrow> error option \<times> App" where
  "fetchUpdateFromJellyfin dflt start itemType srv client a0 =
     (let a = record_call (FetchStarted srv itemType) a0 in
      case if_GetUserId client of
        Inl err \<Rightarrow> (Some err, a)
      | Inr userId \<Rightarrow>
          (let lastSeenUserDataUpdate = fst (GetState (db a) srv itemType) in
           case getQueryOpts a lastSeenUserDataUpdate srv itemType of
             Inl err \<Rightarrow> (Some err, a)
           | Inr opts \<Rightarrow>
               (let a1 = record_call (ItemsRequested srv opts) a in
                case if_GetItems client userId opts of
                  Inl err \<Rightarrow> (Some err, a1)
                | Inr items \<Rightarrow>
                    (case InsertItems dflt srv itemType (r_Items items) (db a1) of
                       (Some err, d) \<Rightarrow> (Some err, a1\<lparr>db := d\<rparr>)
                     | (None, d) \<Rightarrow>
                         (case RemoveItemsNotSeenSince srv itemType start d of
                            (err, d') \<Rightarrow> (err, a1\<lparr>db := d'\<rparr>))))))"

text \<open>
  The workers of a phase run one per server and touch only rows of their own server; they
  are run here one after the other, in the order of the client list, and their errors are
  appended as \<open>multierr.Append\<close> does.
\<close>

fun each_client ::
  "(string \<Rightarrow> JellyfinClient \<Rightarrow> App \<Rightarrow> error list \<times> App) \<Rightarrow> (string \<times> JellyfinClient) list \<Rightarrow> App
     \<Rightarrow> error list \<times> App" where
  "each_client worker [] a = ([], a)"
| "each_client worker ((srv, client) # cs) a =
     (case worker srv client a of
        (errs, a') \<Rightarrow> (case each_client worker cs a' of (errs', a'') \<Rightarrow> (errs @ errs', a'')))"

definition error_list :: "error option \<times> App \<Rightarrow> error list \<times> App" where
  "error_list r = (case r of (None, a) \<Rightarrow> ([], a) | (Some e, a) \<Rightarrow> ([e], a))"

definition fetchUpdatesFromJellyfin :: "Env \<Rightarrow> ItemType \<Rightarrow> App \<Rightarrow> error list \<times> App" where
  "fetchUpdatesFromJellyfin env itemType a =
     each_client
       (\<lambda>srv client a. error_list
          (fetchUpdateFromJellyfin (last_seen_default env) (now_fetch env srv itemType) itemType
             srv client a))
       (clients env) a"

subsection \<open>Phase B: synchronizeSingleUpdatedUserData, synchronizeUpdatedUserData\<close>

text \<open>
  The state of the loop over the stale rows: \<open>lowestTimestamp\<close>,
  \<open>encounteredErrorsWhileUpdatingUserData\<close>, \<open>errs\<close> and the application.
\<close>

definition update_item ::
  "gotime \<Rightarrow> string \<Rightarrow> JellyfinClient \<Rightarrow> string \<Rightarrow> ItemWithUpdatedUserData
     \<Rightarrow> int64 \<times> bool \<times> error list \<times> App \<Rightarrow> int64 \<times> bool \<times> error list \<times> App" where
  "update_item now srv client userId item st =
     (case st of (lowestTimestamp, encountered, errs, a) \<Rightarrow>
        (let lowest = (if u_WatchedDate item < lowestTimestamp then u_WatchedDate item
                       else lowestTimestamp);
             a1 = record_call (UserDataPosted srv (u_LocalID item)) a
         in case if_UpdateUserData client userId (u_LocalID item) (AsUserData item) of
              Some err \<Rightarrow> (lowest, True, errs @ [err], a1)
            | None \<Rightarrow>
                (lowest, encountered, errs,
                 a1\<lparr>db := InsertChangelog now srv (getChangelogData item) (db a1)\<rparr>)))"

text \<open>The write of the user-data of a stale row, as \<open>update_item\<close> issues it, fails.\<close>

definition write_fails :: "JellyfinClient \<Rightarrow> string \<Rightarrow> ItemWithUpdatedUserData \<Rightarrow> bool" where
  "write_fails client userId item =
     (if_UpdateUserData client userId (u_LocalID item) (AsUserData item) \<noteq> None)"

definition stale_rows :: "App \<Rightarrow> ItemType \<Rightarrow> string \<Rightarrow> error + ItemWithUpdatedUserData list" where
  "stale_rows a itemType srv =
     (if itemType = ItemMovie then Inr (GetMoviesWithUpdatedUserData (db a) srv)
      else if itemType = ItemEpisode then Inr (GetEpisodesWithUpdatedUserData (db a) srv)
      else Inl (InvalidType itemType))"

definition synchronizeSingleUpdatedUserData ::
  "gotime \<Rightarrow> ItemType \<Rightarrow> string \<Rightarrow> JellyfinClient \<Rightarrow> App \<Rightarrow> error list \<times> App" where
  "synchronizeSingleUpdatedUserData now itemType srv client a0 =
     (let a = record_call (ApplyStarted srv itemType) a0 in
      case stale_rows a itemType srv of
        Inl err \<Rightarrow> ([err], a)
      | Inr updated \<Rightarrow>
          if updated = [] then
            (case UpsertState srv itemType now (db a) of
               Inl err \<Rightarrow> ([], a)
             | Inr d \<Rightarrow> ([], a\<lparr>db := d\<rparr>))
          else
            (case if_GetUserId client of
               Inl err \<Rightarrow> ([err], a)
             | Inr userId \<Rightarrow>
                 (case fold (update_item now srv client userId) updated (MaxInt64, False, [], a) of
                    (lowestTimestamp, encountered, errs, a1) \<Rightarrow>
                      if \<not> encountered then
                        (case UpsertState srv itemType (time_Unix (wrap64 (lowestTimestamp - 1)))
                                (db a1) of
                           Inl err \<Rightarrow> (errs, a1)
                         | Inr d \<Rightarrow> (errs, a1\<lparr>db := d\<rparr>))
                      else (errs, a1))))"

definition synchronizeUpdatedUserData :: "Env \<Rightarrow> ItemType \<Rightarrow> App \<Rightarrow> error list \<times> App" where
  "synchronizeUpdatedUserData env itemType a =
     each_client
       (\<lambda>srv client a. synchronizeSingleUpdatedUserData (now_apply env srv itemType) itemType
          srv client a)
       (clients env) a"

subsection \<open>The cycle\<close>

definition syncMoviesWatchedState :: "Env \<Rightarrow> App \<Rightarrow> error list \<times> App" where
  "syncMoviesWatchedState env a =
     (case fetchUpdatesFromJellyfin env ItemMovie a of
        (errs, a') \<Rightarrow>
          if errs \<noteq> [] then (errs, a') else synchronizeUpdatedUserData env ItemMovie a')"

definition syncEpisodesWatchedState :: "Env \<Rightarrow> App \<Rightarrow> error list \<times> App" where
  "syncEpisodesWatchedState env a =
     (case fetchUpdatesFromJellyfin env ItemEpisode a of
        (errs, a') \<Rightarrow>
          if errs \<noteq> [] then (errs, a') else synchronizeUpdatedUserData env ItemEpisode a')"

definition SyncOnce :: "Env \<Rightarrow> App \<Rightarrow> error list \<times> App" where
  "SyncOnce env a =
     (case syncMoviesWatchedState env a of
        (errs1, a1) \<Rightarrow>
          (case syncEpisodesWatchedState env a1 of
             (errs2, a2) \<Rightarrow> (errs1 @ errs2, a2\<lparr>counter := wrap32 (counter a2 + 1)\<rparr>)))"

text \<open>The recorded call is the entry of the apply phase for an item type.\<close>

fun apply_started :: "ItemType \<Rightarrow> call \<Rightarrow> bool" where
  "apply_started itemType (ApplyStarted srv t) = (t = itemType)"
| "apply_started itemType (FetchStarted srv t) = False"
| "apply_started itemType (ItemsRequested srv opts) = False"
| "apply_started itemType (UserDataPosted srv itemId) = False"

subsection \<open>The watermark over cycles\<close>

text \<open>
  The application as the fetch phase of an item type leaves it within \<open>SyncOnce\<close>: the
  phase of the movies starts from the application the cycle starts with, that of the
  episodes from the one \<open>syncMoviesWatchedState\<close> leaves.
\<close>

definition fetched :: "Env \<Rightarrow> ItemType \<Rightarrow> App \<Rightarrow> App" where
  "fetched env itemType a =
     (if itemType = ItemMovie then snd (fetchUpdatesFromJellyfin env ItemMovie a)
      else snd (fetchUpdatesFromJellyfin env itemType (snd (syncMoviesWatchedState env a))))"

text \<open>
  The value that the apply worker of a server and item type passes to \<open>UpsertState\<close> in a
  cycle, when it comes to that: the reading of its clock when its stale set is empty, and
  otherwise \<open>lowestTimestamp - 1\<close>, where \<open>lowestTimestamp\<close> starts at \<open>MaxInt64\<close> and is
  lowered to the least \<open>watched_date\<close> of the set. There is none for an item type that has
  no diff query.
\<close>

definition watermark_to_write :: "Env \<Rightarrow> App \<Rightarrow> string \<Rightarrow> ItemType \<Rightarrow> int64 option" where
  "watermark_to_write env a srv itemType =
     (case stale_rows (fetched env itemType a) itemType srv of
        Inl err \<Rightarrow> None
      | Inr updated \<Rightarrow>
          Some (if updated = [] then Unix (now_apply env srv itemType)
                else Min (insert MaxInt64 (u_WatchedDate ` set updated)) - 1))"

text \<open>
  A sequence of cycles, one per environment, and the applications it goes through. In
  \<open>not_lowering\<close> the value each of the cycles has to write for a server and item type is
  not below the watermark stored when the cycle starts.
\<close>

fun cycles :: "Env list \<Rightarrow> App \<Rightarrow> App list" where
  "cycles [] a = [a]"
| "cycles (env # envs) a = a # cycles envs (snd (SyncOnce env a))"

fun not_lowering :: "Env list \<Rightarrow> App \<Rightarrow> string \<Rightarrow> ItemType \<Rightarrow> bool" where
  "not_lowering [] a srv itemType = True"
| "not_lowering (env # envs) a srv itemType =
     ((case (state (db a) (srv, itemType), watermark_to_write env a srv itemType) of
         (Some w, Some v) \<Rightarrow> w \<le> v
       | _ \<Rightarrow> True) \<and>
      not_lowering envs (snd (SyncOnce env a)) srv itemType)"

section \<open>The scheduler and the webhook\<close>

text \<open>
  Modelled from the spec: the declaration of \<open>events.EventSyncRequest\<close> is not among the
  sources; its fields are the three that \<open>App.Sync\<close> and the webhook handler use, a
  source, a metadata string and a reply channel for an \<open>error\<close>. The channel is \<open>None\<close> when
  the field is nil, which is what a struct literal that does not name the field leaves, and
  \<open>Some c\<close> for a channel \<open>c\<close> on which a receiver is waiting. A send on a nil channel never
  completes.
\<close>

record EventSyncRequest =
  ev_Source :: string
  ev_Metadata :: string
  ev_Response :: "nat option"

datatype reply = NilReply | ErrorReply string

datatype cause = AtStart | OnEvent | OnTick

record Daemon =
  cooldown :: bool
  syncs :: "cause list"
  replies :: "(nat \<times> reply) list"
  hanging :: nat
  blocked :: bool
  exited :: bool

datatype signal = Event EventSyncRequest | Tick | CooldownExpired | Cancelled

text \<open>
  One iteration of the \<open>select\<close> loop of \<open>App.Sync\<close>, or the expiry of the cooldown timer
  in its own goroutine. \<open>syncs\<close> lists the invocations of \<open>SyncOnce\<close>; \<open>hanging\<close> counts the
  one-second timeouts of the accepting branch; \<open>blocked\<close> is set when the loop is stuck in
  a send that never completes.
\<close>

definition Sync_select :: "signal \<Rightarrow> Daemon \<Rightarrow> Daemon" where
  "Sync_select s d =
     (case s of
        CooldownExpired \<Rightarrow> d\<lparr>cooldown := False\<rparr>
      | Event event \<Rightarrow>
          if blocked d \<or> exited d then d
          else if \<not> cooldown d then
            (let d1 = d\<lparr>cooldown := True\<rparr>;
                 d2 = (case ev_Response event of
                         Some c \<Rightarrow> d1\<lparr>replies := replies d1 @ [(c, NilReply)]\<rparr>
                       | None \<Rightarrow> d1\<lparr>hanging := hanging d1 + 1\<rparr>)
             in d2\<lparr>syncs := syncs d2 @ [OnEvent]\<rparr>)
          else
            (case ev_Response event of
               Some c \<Rightarrow> d\<lparr>replies := replies d @ [(c, ErrorReply ''too many requests'')]\<rparr>
             | None \<Rightarrow> d\<lparr>blocked := True\<rparr>)
      | Tick \<Rightarrow> if blocked d \<or> exited d then d else d\<lparr>syncs := syncs d @ [OnTick]\<rparr>
      | Cancelled \<Rightarrow> if blocked d \<or> exited d then d else d\<lparr>exited := True\<rparr>)"

definition fresh_daemon :: Daemon where
  "fresh_daemon =
     \<lparr> cooldown = False, syncs = [AtStart], replies = [], hanging = 0, blocked = False,
       exited = False \<rparr>"

definition Sync :: "signal list \<Rightarrow> Daemon" where
  "Sync signals = fold Sync_select signals fresh_daemon"

text \<open>
  The handler of \<open>WebhookServer.Listen\<close>. A request that is not a POST is answered with
  405 and one that arrives during the shutdown with 503. For any other request the handler
  sends an event on the event channel and answers 200 once that send has completed; the
  struct literal of the event names \<open>Source\<close> and \<open>Metadata\<close> only. \<open>req_ip\<close> is what \<open>getIP\<close>
  finds in the request.
\<close>

record HttpRequest =
  req_Method :: string
  req_ip :: string

datatype outcome = Answered nat | Publish EventSyncRequest

definition handler :: "bool \<Rightarrow> HttpRequest \<Rightarrow> outcome" where
  "handler isShuttingDown r =
     (if req_Method r \<noteq> ''POST'' then Answered 405
      else if isShuttingDown then Answered 503
      else Publish \<lparr> ev_Source = ''webhook'', ev_Metadata = req_ip r, ev_Response = None \<rparr>)"

text \<open>
  The webhook server and the loop of \<open>App.Sync\<close> around the event channel, which \<open>runDaemon\<close>
  makes with a buffer of one event. \<open>hook\<close> is the buffer of the channel, \<open>sending\<close> the
  events of the handlers that wait in their send, in the order they arrived, \<open>answers\<close> the
  statuses the handlers have written so far, and \<open>requests_total\<close> the number of events the
  loop has taken from the channel (the counter \<open>EventSourceRequestsTotal\<close>).
\<close>

record Ingress =
  daemon :: Daemon
  isShuttingDown :: bool
  hook :: "EventSyncRequest list"
  sending :: "EventSyncRequest list"
  answers :: "nat list"
  requests_total :: nat

definition hook_capacity :: nat where
  "hook_capacity = 1"

definition fresh_ingress :: Ingress where
  "fresh_ingress =
     \<lparr> daemon = fresh_daemon, isShuttingDown = False, hook = [], sending = [], answers = [],
       requests_total = 0 \<rparr>"

text \<open>
  A request arrives and its handler runs. The send completes when the buffer has room;
  otherwise the handler waits and has answered nothing.
\<close>

definition post :: "HttpRequest \<Rightarrow> Ingress \<Rightarrow> Ingress" where
  "post r s =
     (case handler (isShuttingDown s) r of
        Answered code \<Rightarrow> s\<lparr>answers := answers s @ [code]\<rparr>
      | Publish event \<Rightarrow>
          if length (hook s) < hook_capacity
          then s\<lparr>hook := hook s @ [event], answers := answers s @ [200]\<rparr>
          else s\<lparr>sending := sending s @ [event]\<rparr>)"

text \<open>
  The loop comes to its \<open>select\<close> and takes the event at the head of the buffer, if there
  is one. The place it frees is filled by the handler that has waited longest, whose send
  completes and which answers 200. A loop that is stuck in a send, or has returned, takes
  nothing.
\<close>

definition receive :: "Ingress \<Rightarrow> Ingress" where
  "receive s =
     (if blocked (daemon s) \<or> exited (daemon s) then s
      else case hook s of
             [] \<Rightarrow> s
           | event # queue \<Rightarrow>
               (let s1 = (case sending s of
                            [] \<Rightarrow> s\<lparr>hook := queue\<rparr>
                          | waiting # others \<Rightarrow>
                              s\<lparr>hook := queue @ [waiting], sending := others,
                                answers := answers s @ [200]\<rparr>)
                in s1\<lparr>daemon := Sync_select (Event event) (daemon s),
                      requests_total := requests_total s + 1\<rparr>))"

text \<open>
  What happens within one cooldown window: requests arrive and the loop iterates, in any
  order.
\<close>

datatype action = Post HttpRequest | Receive

fun act :: "action \<Rightarrow> Ingress \<Rightarrow> Ingress" where
  "act (Post r) s = post r s"
| "act Receive s = receive s"

definition serve_burst :: "action list \<Rightarrow> Ingress" where
  "serve_burst acts = fold act acts fresh_ingress"

fun is_POST :: "action \<Rightarrow> bool" where
  "is_POST (Post r) = (req_Method r = ''POST'')"
| "is_POST Receive = True"

text \<open>
  The daemon after it has accepted the first event of a burst that has no reply channel, and
  what holds of the server and the loop throughout such a burst: the events in the channel
  are those of the handler, the loop has taken none, one or two of them, and every status
  written is the 200 of a completed send.
\<close>

definition accepted_daemon :: Daemon where
  "accepted_daemon = \<lparr> cooldown = True, syncs = [AtStart, OnEvent], replies = [], hanging = 1,
       blocked = False, exited = False \<rparr>"

definition burst_inv :: "Ingress \<Rightarrow> bool" where
  "burst_inv s =
     ((\<forall>e \<in> set (hook s) \<union> set (sending s). ev_Response e = None) \<and>
      length (hook s) \<le> 1 \<and> \<not> isShuttingDown s \<and>
      (sending s \<noteq> [] \<longrightarrow> hook s \<noteq> []) \<and>
      ((requests_total s = 0 \<and> daemon s = fresh_daemon) \<or>
       (requests_total s = 1 \<and> daemon s = accepted_daemon) \<or>
       (requests_total s = 2 \<and> daemon s = accepted_daemon\<lparr>blocked := True\<rparr>)) \<and>
      answers s = replicate (requests_total s + length (hook s)) 200)"

section \<open>Example clients and applications\<close>

text \<open>
  A client whose user resolves, whose listing of movies returns the given items (and whose
  listing of any other type is empty) and whose writes succeed; a client whose user list cannot be read; an application with
  the default intervals on a given store.
\<close>

definition lister :: "Item list \<Rightarrow> JellyfinClient" where
  "lister items =
     \<lparr> if_GetUserId = Inr ''u1'',
       if_GetItems = (\<lambda>userId opts. Inr (listing (if Type opts = ItemMovie then items else []))),
       if_UpdateUserData = (\<lambda>userId itemId userData. None) \<rparr>"

definition unreachable :: JellyfinClient where
  "unreachable =
     \<lparr> if_GetUserId = Inl (RequestFailed ''status 503''),
       if_GetItems = (\<lambda>userId opts. Inl (RequestFailed ''status 503'')),
       if_UpdateUserData = (\<lambda>userId itemId userData. Some (RequestFailed ''status 503'')) \<rparr>"

definition app_on :: "JellyDb \<Rightarrow> App" where
  "app_on d =
     \<lparr> db = d, counter = 0, syncIntervalMinutes = 5, fullSyncIntervalMinutes = 360, calls = [] \<rparr>"

text \<open>
  Environments on the schema of the migration, where \<open>last_seen\<close> has no default, for the
  servers \<open>dd\<close> and \<open>ez\<close>. In a quiet cycle both servers answer and list nothing, and every
  worker reads the Unix time \<open>t\<close> from the clock. In the outage \<open>dd\<close> cannot be reached
  while \<open>ez\<close> answers and lists nothing.
\<close>

definition quiet_cycle :: "int64 \<Rightarrow> Env" where
  "quiet_cycle t =
     \<lparr> clients = [(''dd'', lister []), (''ez'', lister [])],
       last_seen_default = None,
       now_fetch = (\<lambda>srv itemType. time_Unix t),
       now_apply = (\<lambda>srv itemType. time_Unix t) \<rparr>"

definition outage :: Env where
  "outage =
     \<lparr> clients = [(''dd'', unreachable), (''ez'', lister [])],
       last_seen_default = None,
       now_fetch = (\<lambda>srv itemType. time_Unix 1000),
       now_apply = (\<lambda>srv itemType. time_Unix 1000) \<rparr>"

text \<open>An application on the store the migration creates, with both intervals at 30 minutes.\<close>

definition every_cycle_full :: App where
  "every_cycle_full =
     \<lparr> db = empty_db, counter = 0, syncIntervalMinutes = 30, fullSyncIntervalMinutes = 30,
       calls = [] \<rparr>"

section \<open>Evaluation of the decimal rendering\<close>

lemma nat_to_text_digit: "n < 10 \<Longrightarrow> nat_to_text n = [digit_char n]"
  by (simp add: nat_to_text.simps)

lemma nat_to_text_more:
  "\<not> n < 10 \<Longrightarrow> nat_to_text n = nat_to_text (n div 10) @ [digit_char (n mod 10)]"
  by (subst nat_to_text.simps) simp

lemmas text_eval = int_to_text_def nat_to_text_digit nat_to_text_more digit_char_def

section \<open>Identity keying: the match key as a function of the item\<close>

lemma kept_head:
  assumes "filter (\<lambda>r. IsDigit r \<or> r = CHR ''-'') s = c # cs"
  shows "IsDigit c \<or> c = CHR ''-''"
proof -
  have "c \<in> set (filter (\<lambda>r. IsDigit r \<or> r = CHR ''-'') s)"
    using assms by simp
  then show ?thesis by simp
qed

lemma minus_not_digit: "\<not> IsDigit CHR ''-''" "\<not> IsDigit CHR ''+''"
  by (simp_all add: IsDigit_def)

lemma parse_usable: "NullInt64 (SanitizeAndParseInt64 s) = usable_id s"
proof (cases "filter (\<lambda>r. IsDigit r \<or> r = CHR ''-'') s")
  case Nil
  then show ?thesis
    by (simp add: NullInt64_def SanitizeAndParseInt64_def usable_id_def)
next
  case (Cons c cs)
  from kept_head[OF Cons] have hd: "IsDigit c \<or> c = CHR ''-''" .
  show ?thesis
  proof (cases "c = CHR ''-''")
    case True
    with Cons show ?thesis
      by (auto simp: NullInt64_def SanitizeAndParseInt64_def usable_id_def ParseInt_def
          ParseUint_def signed_val_def Let_def MinInt64_def MaxInt64_def)
  next
    case False
    with hd have d: "IsDigit c" by simp
    then have "c \<noteq> CHR ''+''" using minus_not_digit by auto
    with Cons False d show ?thesis
      by (auto simp: NullInt64_def SanitizeAndParseInt64_def usable_id_def ParseInt_def
          ParseUint_def signed_val_def Let_def MinInt64_def MaxInt64_def)
  qed
qed

text \<open>
  C2, as the code has it. The match key of a stored item depends on the item alone (not on
  the server or on \<open>last_seen\<close>) and is the first applicable tier: \<open>imdb_<id>\<close>, else
  \<open>tmdb_<id>\<close>, else for episodes \<open>tvdb_<id>\<close>, else the name fallback. A provider id is
  usable when the text left after retaining the decimal digits and every minus sign is an
  optional minus followed by digits, lies in the signed 64-bit range and is not zero;
  \<open><id>\<close> is the decimal rendering of that integer.
\<close>

theorem match_key_tiers:
  "movie_key_of_item srv item ls = tiered_movie_key item \<and>
   episode_key_of_item srv item ls = tiered_episode_key item"
  by (simp add: movie_key_of_item_def episode_key_of_item_def movie_match_key_def
      episode_match_key_def movie_values_def episode_values_def MovieToInsertMovieParam_def
      EpisodeToInsertEpisodeParam_def tiered_movie_key_def tiered_episode_key_def
      parse_usable Let_def split: option.splits)

text \<open>
  C2, as the specification words it, fails on the code. With the IMDB id \<open>tt0000000\<close> the
  retained text \<open>0000000\<close> is neither empty nor \<open>-\<close>, yet the code stores NULL for the
  value 0 and the key falls through to the TMDB tier; with \<open>1-2\<close> the code retains the
  inner minus, the text does not parse, and the key falls through as well.
\<close>

theorem match_key_as_specified_counterexample:
  "movie_key_of_item ''dd'' (matrix_item ''1'' ''tt0000000'' ''603'') 0 = ''tmdb_603'' \<and>
   spec_movie_key (matrix_item ''1'' ''tt0000000'' ''603'') = ''imdb_0'' \<and>
   movie_key_of_item ''dd'' (matrix_item ''1'' ''1-2'' ''603'') 0 = ''tmdb_603'' \<and>
   spec_movie_key (matrix_item ''1'' ''1-2'' ''603'') = ''imdb_12''"
  by (simp add: movie_key_of_item_def spec_movie_key_def matrix_item_def never_played_def
     movie_match_key_def movie_values_def MovieToInsertMovieParam_def SanitizeAndParseInt64_def
     ParseInt_def ParseUint_def IsDigit_def digits_val_def digit_val_def NullInt64_def
     spec_provider_id_def spec_sanitize_def signed_val_def IsZero_def text_eval)

section \<open>The diff queries\<close>

lemma fold_max_Max: "fold max ds (d::int) = Max (set (d # ds))"
  by (rule Max.set_eq_fold[symmetric])

lemma max_remote_None_iff:
  "max_remote key srv t k = None \<longleftrightarrow>
     \<not> (\<exists>r\<in>set t. server r \<noteq> srv \<and> watched_date r > 0 \<and> key r = k)"
proof -
  let ?ds = "map watched_date (filter (\<lambda>r. server r \<noteq> srv \<and> watched_date r > 0 \<and> key r = k) t)"
  have "(?ds = []) = (\<not> (\<exists>r\<in>set t. server r \<noteq> srv \<and> watched_date r > 0 \<and> key r = k))"
    by (simp add: filter_empty_conv)
  moreover have "(max_remote key srv t k = None) = (?ds = [])"
    unfolding max_remote_def by (cases ?ds) simp_all
  ultimately show ?thesis by simp
qed

lemma max_remote_Some:
  assumes "max_remote key srv t k = Some m"
  shows "\<exists>r\<in>set t. server r \<noteq> srv \<and> key r = k \<and> watched_date r = m \<and> m > 0"
    and "\<forall>r\<in>set t. server r \<noteq> srv \<and> key r = k \<and> watched_date r > 0 \<longrightarrow> watched_date r \<le> m"
proof -
  let ?ds = "map watched_date (filter (\<lambda>r. server r \<noteq> srv \<and> watched_date r > 0 \<and> key r = k) t)"
  from assms obtain d ds where ds: "?ds = d # ds" and md: "m = fold max ds d"
    unfolding max_remote_def by (cases ?ds) auto
  from ds have ne: "?ds \<noteq> []" by simp
  from md have m: "m = Max (set ?ds)" unfolding ds by (simp only: fold_max_Max)
  have "Max (set (d # ds)) \<in> set (d # ds)" by (rule Max_in) simp_all
  then have "m \<in> set ?ds" unfolding m ds .
  then show "\<exists>r\<in>set t. server r \<noteq> srv \<and> key r = k \<and> watched_date r = m \<and> m > 0"
    by auto
  show "\<forall>r\<in>set t. server r \<noteq> srv \<and> key r = k \<and> watched_date r > 0 \<longrightarrow> watched_date r \<le> m"
  proof (intro ballI impI)
    fix r assume "r \<in> set t" "server r \<noteq> srv \<and> key r = k \<and> watched_date r > 0"
    then have "watched_date r \<in> set ?ds" by auto
    then show "watched_date r \<le> m" unfolding m by (intro Max_ge) auto
  qed
qed

lemma best_remote_None_iff:
  "best_remote key srv t k = None \<longleftrightarrow>
     \<not> (\<exists>r\<in>set t. server r \<noteq> srv \<and> watched_date r > 0 \<and> key r = k)"
proof (cases "max_remote key srv t k")
  case None
  then show ?thesis using max_remote_None_iff[of key srv t k] by (simp add: best_remote_def)
next
  case (Some m)
  from max_remote_Some(1)[OF Some] obtain r where
    r: "r \<in> set t" "server r \<noteq> srv" "key r = k" "watched_date r = m" "m > 0" by blast
  then have "filter (\<lambda>r. server r \<noteq> srv \<and> key r = k \<and> watched_date r = m) t \<noteq> []"
    by (auto simp: filter_empty_conv)
  with Some r show ?thesis by (auto simp: best_remote_def split: list.splits)
qed

lemma best_remote_Some:
  assumes "best_remote key srv t k = Some b"
  shows "b \<in> set t" "server b \<noteq> srv" "key b = k" "watched_date b > 0"
    and "\<forall>r\<in>set t. server r \<noteq> srv \<and> key r = k \<longrightarrow> watched_date r \<le> watched_date b"
proof -
  from assms obtain m rs where m: "max_remote key srv t k = Some m"
    and f: "filter (\<lambda>r. server r \<noteq> srv \<and> key r = k \<and> watched_date r = m) t = b # rs"
    by (auto simp: best_remote_def split: option.splits list.splits)
  have "b \<in> set (filter (\<lambda>r. server r \<noteq> srv \<and> key r = k \<and> watched_date r = m) t)"
    by (simp add: f)
  then have b: "b \<in> set t" "server b \<noteq> srv" "key b = k" "watched_date b = m" by auto
  from max_remote_Some[OF m] have pos: "m > 0"
    and mx: "\<forall>r\<in>set t. server r \<noteq> srv \<and> key r = k \<and> watched_date r > 0 \<longrightarrow> watched_date r \<le> m"
    by auto
  show "b \<in> set t" "server b \<noteq> srv" "key b = k" using b by auto
  show "watched_date b > 0" using b pos by simp
  show "\<forall>r\<in>set t. server r \<noteq> srv \<and> key r = k \<longrightarrow> watched_date r \<le> watched_date b"
  proof (intro ballI impI)
    fix r assume r: "r \<in> set t" "server r \<noteq> srv \<and> key r = k"
    show "watched_date r \<le> watched_date b"
    proof (cases "watched_date r > 0")
      case True with mx r b show ?thesis by auto
    next
      case False with pos b show ?thesis by simp
    qed
  qed
qed

lemma stale_iff_newer:
  assumes "le \<in> set t"
  shows "(\<exists>b. best_remote key srv t (key le) = Some b \<and> watched_date b > watched_date le \<and> watched_date b > 0)
         \<longleftrightarrow> newer_remote key srv t le"
proof
  assume "\<exists>b. best_remote key srv t (key le) = Some b \<and> watched_date b > watched_date le \<and> watched_date b > 0"
  then obtain b where b: "best_remote key srv t (key le) = Some b" "watched_date b > watched_date le" "watched_date b > 0"
    by blast
  from best_remote_Some(1-3)[OF b(1)] b(2,3) show "newer_remote key srv t le"
    by (auto simp: newer_remote_def list_ex_iff)
next
  assume "newer_remote key srv t le"
  then obtain r where r: "r \<in> set t" "server r \<noteq> srv" "key r = key le"
      "watched_date r > watched_date le" "watched_date r > 0"
    by (auto simp: newer_remote_def list_ex_iff)
  then have "best_remote key srv t (key le) \<noteq> None"
    using best_remote_None_iff[of key srv t "key le"] by auto
  then obtain b where b: "best_remote key srv t (key le) = Some b" by auto
  from best_remote_Some(4,5)[OF b] r have "watched_date b > watched_date le" "watched_date b > 0"
    by force+
  with b show "\<exists>b. best_remote key srv t (key le) = Some b \<and> watched_date b > watched_date le \<and> watched_date b > 0"
    by blast
qed

lemma stale_pairs_fst:
  "map fst (stale_pairs key srv t) = filter (newer_remote key srv t) (local_rows srv t)"
proof -
  have "\<And>ls. set ls \<subseteq> set t \<Longrightarrow>
    map fst (concat (map (\<lambda>le. case best_remote key srv t (key le) of
                          None \<Rightarrow> []
                        | Some bre \<Rightarrow>
                            if watched_date bre > watched_date le \<and> watched_date bre > 0
                            then [(le, bre)] else []) ls)) = filter (newer_remote key srv t) ls"
  proof -
    fix ls show "set ls \<subseteq> set t \<Longrightarrow> ?thesis ls"
    proof (induction ls)
      case Nil then show ?case by simp
    next
      case (Cons l ls)
      then have l: "l \<in> set t" by simp
      from stale_iff_newer[OF l, of key srv] Cons show ?case
        by (auto split: option.splits)
    qed
  qed
  then show ?thesis by (simp add: stale_pairs_def local_rows_def)
qed

lemma stale_pairs_mem:
  assumes "(le, b) \<in> set (stale_pairs key srv t)"
  shows "le \<in> set t" "server le = srv" "is_best_remote key srv t le b"
        "watched_date b > watched_date le" "watched_date b > 0"
proof -
  from assms have le: "le \<in> set t" "server le = srv"
    and b: "best_remote key srv t (key le) = Some b" "watched_date b > watched_date le" "watched_date b > 0"
    by (auto simp: stale_pairs_def local_rows_def split: option.splits if_splits)
  show "le \<in> set t" "server le = srv" "watched_date b > watched_date le" "watched_date b > 0"
    using le b by auto
  from best_remote_Some[OF b(1)] show "is_best_remote key srv t le b"
    by (auto simp: is_best_remote_def list_ex_iff list_all_iff)
qed

lemma result_ids:
  fixes t :: "'a movie_row_scheme list"
  assumes r: "\<And>p. u_LocalID (res p) = local_id (fst p)"
  shows "map u_LocalID (map res (stale_pairs key srv t)) =
        map local_id (filter (newer_remote key srv t) (local_rows srv t))"
proof -
  have "map u_LocalID (map res (stale_pairs key srv t)) = map local_id (map fst (stale_pairs key srv t))"
    by (simp add: r)
  then show ?thesis by (simp only: stale_pairs_fst)
qed

lemma result_rows:
  fixes t :: "'a movie_row_scheme list"
  assumes "u \<in> set (map res (stale_pairs key srv t))"
  shows "\<exists>le bre. le \<in> set (local_rows srv t) \<and> is_best_remote key srv t le bre \<and>
          watched_date bre > watched_date le \<and> watched_date bre > 0 \<and> u = res (le, bre)"
proof -
  from assms obtain le bre where p: "(le, bre) \<in> set (stale_pairs key srv t)" and u: "u = res (le, bre)"
    by auto
  from stale_pairs_mem[OF p] u show ?thesis
    by (auto simp: local_rows_def)
qed

text \<open>
  C1, as the code has it, for movies and for episodes. The query returns one row for each
  row of the target server that is stale (some row of another server with the same match
  key has a \<open>watched_date\<close> above the local one and above 0) and no other row. Each
  returned row carries the \<open>local_id\<close> of its local row and the name and user-data of a row
  of another server with the same key whose \<open>watched_date\<close> is the greatest among those
  rows, greater than the local one and greater than 0. The choice among equal maxima is a
  function of the table.
\<close>

theorem diff_query_rows:
  "map u_LocalID (GetMovieWithGreatestWatchedDate srv t) =
     map local_id (filter (newer_remote movie_match_key srv t) (local_rows srv t)) \<and>
   (\<forall>u\<in>set (GetMovieWithGreatestWatchedDate srv t).
      \<exists>le bre. le \<in> set (local_rows srv t) \<and> is_best_remote movie_match_key srv t le bre \<and>
        watched_date bre > watched_date le \<and> watched_date bre > 0 \<and> u = movie_result (le, bre)) \<and>
   map u_LocalID (GetEpisodeWithGreatestWatchedDate srv e) =
     map local_id (filter (newer_remote episode_match_key srv e) (local_rows srv e)) \<and>
   (\<forall>u\<in>set (GetEpisodeWithGreatestWatchedDate srv e).
      \<exists>le bre. le \<in> set (local_rows srv e) \<and> is_best_remote episode_match_key srv e le bre \<and>
        watched_date bre > watched_date le \<and> watched_date bre > 0 \<and> u = episode_result (le, bre))"
proof -
  have m: "\<And>p. u_LocalID (movie_result p) = local_id (fst p)"
    by (simp add: movie_result_def split: prod.splits)
  have e: "\<And>p. u_LocalID (episode_result p) = local_id (fst p)"
    by (simp add: episode_result_def split: prod.splits)
  show ?thesis
    unfolding GetMovieWithGreatestWatchedDate_def GetEpisodeWithGreatestWatchedDate_def
    by (intro conjI ballI result_ids result_rows m e)
qed

theorem diff_query_rows_witness:
  "map u_LocalID (GetMovieWithGreatestWatchedDate ''dd''
      [matrix_row ''dd'' ''1'' 0 False 0, matrix_row ''ez'' ''2'' 1750000000 True 0,
       matrix_row ''pt'' ''3'' 0 False 0]) = [''1''] \<and>
   map u_LocalID (GetEpisodeWithGreatestWatchedDate ''dd''
      [pilot_row ''dd'' ''7'' 0, pilot_row ''ez'' ''8'' 1750000000]) = [''7'']"
  using diff_query_rows[of "''dd''" "[matrix_row ''dd'' ''1'' 0 False 0, matrix_row ''ez'' ''2'' 1750000000 True 0,
       matrix_row ''pt'' ''3'' 0 False 0]" "[pilot_row ''dd'' ''7'' 0, pilot_row ''ez'' ''8'' 1750000000]"]
  by (simp add: newer_remote_def local_rows_def matrix_row_def pilot_row_def movie_match_key_def episode_match_key_def)

text \<open>
  C1 as stated promises exactly one row for a server and a match key. The uniqueness of the
  table is on \<open>(server, local_id)\<close>: a server may hold two items with the same provider
  ids, and then the final join returns a row for each of them.
\<close>

theorem diff_query_one_row_per_key_counterexample:
  "distinct (map (\<lambda>r. (server r, local_id r))
      [matrix_row ''dd'' ''1'' 0 False 0, matrix_row ''dd'' ''1b'' 0 False 0,
       matrix_row ''ez'' ''2'' 1750000000 True 0]) \<and>
   movie_match_key (matrix_row ''dd'' ''1'' 0 False 0) = ''imdb_133093'' \<and>
   movie_match_key (matrix_row ''dd'' ''1b'' 0 False 0) = ''imdb_133093'' \<and>
   map u_LocalID (GetMovieWithGreatestWatchedDate ''dd''
      [matrix_row ''dd'' ''1'' 0 False 0, matrix_row ''dd'' ''1b'' 0 False 0,
       matrix_row ''ez'' ''2'' 1750000000 True 0]) = [''1'', ''1b'']"
  by (simp add: GetMovieWithGreatestWatchedDate_def stale_pairs_def local_rows_def
      best_remote_def max_remote_def movie_match_key_def movie_result_def matrix_row_def
      text_eval)

section \<open>Ingest: upserting a batch\<close>

lemma same_item_key: "same_item r n = (item_key r = item_key n)"
  by (auto simp: same_item_def item_key_def)

text \<open>One statement, then a batch, on a table: what an upsert does to keys.\<close>

lemma upsert_keys:
  assumes k1: "\<And>r n. item_key (upd r n) = item_key r"
  shows "set (map item_key (on_conflict_update same_item upd n t)) = insert (item_key n) (set (map item_key t))"
proof (cases "list_ex (\<lambda>r. same_item r n) t")
  case True
  then obtain r where "r \<in> set t" "item_key r = item_key n"
    by (auto simp: list_ex_iff same_item_key)
  then have "item_key n \<in> item_key ` set t" by (metis imageI)
  moreover have "\<And>x. item_key (if same_item x n then upd x n else x) = item_key x"
    by (simp add: k1)
  ultimately show ?thesis using True by (auto simp: on_conflict_update_def o_def)
next
  case False
  then show ?thesis by (simp add: on_conflict_update_def)
qed

lemma upsert_unique:
  assumes k1: "\<And>r n. item_key (upd r n) = item_key r"
    and u: "unique_items t"
  shows "unique_items (on_conflict_update same_item upd n t)"
proof (cases "list_ex (\<lambda>r. same_item r n) t")
  case True
  have "\<And>x. item_key (if same_item x n then upd x n else x) = item_key x"
    by (simp add: k1)
  with True u show ?thesis by (simp add: on_conflict_update_def unique_items_def o_def)
next
  case False
  then have "item_key n \<notin> set (map item_key t)"
    by (auto simp: list_ex_iff same_item_key)
  with False u show ?thesis by (simp add: on_conflict_update_def unique_items_def)
qed

lemma upsert_all_snoc:
  "upsert_all upd row (ps @ [p]) t = on_conflict_update same_item upd (row p) (upsert_all upd row ps t)"
  by (simp add: upsert_all_def)

lemma upsert_all_keys:
  assumes k1: "\<And>r n. item_key (upd r n) = item_key r"
  shows "set (map item_key (upsert_all upd row ps t)) = item_key ` row ` set ps \<union> set (map item_key t)"
proof (induction ps rule: rev_induct)
  case Nil
  then show ?case by (simp add: upsert_all_def)
next
  case (snoc p ps)
  show ?case
    unfolding upsert_all_snoc upsert_keys[of upd, OF k1] snoc.IH by auto
qed

lemma upsert_all_unique:
  assumes k1: "\<And>r n. item_key (upd r n) = item_key r"
    and u: "unique_items t"
  shows "unique_items (upsert_all upd row ps t)"
proof (induction ps rule: rev_induct)
  case Nil
  then show ?case using u by (simp add: upsert_all_def)
next
  case (snoc p ps)
  then show ?case unfolding upsert_all_snoc by (intro upsert_unique k1)
qed

lemma settle_Nil: "settle upd row [] r = r"
  by (simp add: settle_def)

lemma settle_snoc:
  "settle upd row (ps @ [p]) r =
     (if same_item (settle upd row ps r) (row p) then upd (settle upd row ps r) (row p)
      else settle upd row ps r)"
  by (simp add: settle_def)

lemma settle_key:
  assumes k1: "\<And>r n. item_key (upd r n) = item_key r"
  shows "item_key (settle upd row ps r) = item_key r"
  by (induction ps rule: rev_induct) (simp_all add: settle_def k1)

lemma upd_settle:
  assumes u2: "\<And>r m n. upd (upd r m) n = upd r n"
  shows "upd (settle upd row ps r) n = upd r n"
  by (induction ps rule: rev_induct) (simp_all add: settle_def u2)

lemma upsert_all_present:
  assumes k1: "\<And>r n. item_key (upd r n) = item_key r"
    and pres: "item_key ` row ` set ps \<subseteq> set (map item_key t)"
  shows "upsert_all upd row ps t = map (settle upd row ps) t"
  using pres
proof (induction ps rule: rev_induct)
  case Nil
  then show ?case by (simp add: upsert_all_def settle_def)
next
  case (snoc p ps)
  then have ih: "upsert_all upd row ps t = map (settle upd row ps) t"
    and p: "item_key (row p) \<in> set (map item_key t)" by auto
  from p obtain r where r: "r \<in> set t" "item_key r = item_key (row p)" by auto
  then have "list_ex (\<lambda>r. same_item r (row p)) (map (settle upd row ps) t)"
    by (auto simp: list_ex_iff same_item_key settle_key[of upd, OF k1])
  then show ?case
    unfolding upsert_all_snoc ih
    by (simp add: on_conflict_update_def settle_snoc)
qed

lemma settle_no_match:
  assumes "\<forall>q\<in>set ps. item_key (row q) \<noteq> item_key r"
  shows "settle upd row ps r = r"
  using assms by (induction ps rule: rev_induct) (auto simp: settle_Nil settle_snoc same_item_key)

lemma upsert_all_settled:
  assumes k1: "\<And>r n. item_key (upd r n) = item_key r"
    and k2: "\<And>p. item_key (row' p) = item_key (row p)"
    and u2: "\<And>r m n. upd (upd r m) n = upd r n"
    and u3: "\<And>p. upd (row p) (row' p) = row p"
    and u4: "\<And>r p. upd r (row' p) = upd r (row p)"
  shows "r \<in> set (upsert_all upd row ps t) \<Longrightarrow> settle upd row' ps r = r"
proof (induction ps arbitrary: r rule: rev_induct)
  case Nil
  then show ?case by (simp add: settle_def)
next
  case (snoc p ps)
  let ?X = "upsert_all upd row ps t"
  have hit: "same_item (settle upd row' ps r) (row' p) = (item_key r = item_key (row p))"
    by (simp add: same_item_key settle_key[of upd, OF k1] k2)
  show ?case
  proof (cases "list_ex (\<lambda>x. same_item x (row p)) ?X")
    case True
    with snoc.prems obtain r0 where r0: "r0 \<in> set ?X"
      and r: "r = (if same_item r0 (row p) then upd r0 (row p) else r0)"
      unfolding upsert_all_snoc by (auto simp: on_conflict_update_def)
    show ?thesis
    proof (cases "same_item r0 (row p)")
      case False
      with r have "r = r0" by simp
      with False snoc.IH[OF r0] hit show ?thesis
        by (simp add: settle_snoc same_item_key)
    next
      case same: True
      with r have r': "r = upd r0 (row p)" by simp
      from same have "item_key r = item_key (row p)"
        by (simp add: r' k1 same_item_key)
      with hit have "settle upd row' (ps @ [p]) r = upd (settle upd row' ps r) (row' p)"
        by (simp add: settle_snoc)
      also have "\<dots> = upd r (row' p)" by (rule upd_settle[of upd, OF u2])
      also have "\<dots> = upd r0 (row p)" by (simp add: r' u2 u4)
      finally show ?thesis by (simp add: r')
    qed
  next
    case False
    with snoc.prems have "r \<in> set ?X \<or> r = row p"
      unfolding upsert_all_snoc by (auto simp: on_conflict_update_def)
    then show ?thesis
    proof
      assume rX: "r \<in> set ?X"
      with False have "item_key r \<noteq> item_key (row p)"
        by (auto simp: list_ex_iff same_item_key)
      with snoc.IH[OF rX] hit show ?thesis by (simp add: settle_snoc)
    next
      assume r: "r = row p"
      from False have "item_key (row p) \<notin> set (map item_key ?X)"
        by (auto simp: list_ex_iff same_item_key)
      then have notin: "item_key (row p) \<notin> item_key ` row ` set ps"
        unfolding upsert_all_keys[of upd, OF k1] by simp
      have "\<forall>q\<in>set ps. item_key (row' q) \<noteq> item_key (row p)"
      proof (intro ballI notI)
        fix q assume q: "q \<in> set ps" "item_key (row' q) = item_key (row p)"
        then have "item_key (row p) = item_key (row q)" by (simp add: k2)
        moreover from q have "item_key (row q) \<in> item_key ` row ` set ps" by simp
        ultimately show False using notin by simp
      qed
      then have "settle upd row' ps (row p) = row p" by (rule settle_no_match)
      with hit r show ?thesis by (simp add: settle_snoc u3 same_item_key k2)
    qed
  qed
qed

lemma upsert_all_twice:
  assumes k1: "\<And>r n. item_key (upd r n) = item_key r"
    and k2: "\<And>p. item_key (row' p) = item_key (row p)"
    and u2: "\<And>r m n. upd (upd r m) n = upd r n"
    and u3: "\<And>p. upd (row p) (row' p) = row p"
    and u4: "\<And>r p. upd r (row' p) = upd r (row p)"
  shows "upsert_all upd row' ps (upsert_all upd row ps t) = upsert_all upd row ps t"
proof -
  let ?X = "upsert_all upd row ps t"
  have "item_key ` row' ` set ps \<subseteq> set (map item_key ?X)"
    unfolding upsert_all_keys[of upd, OF k1] by (auto simp: k2)
  then have "upsert_all upd row' ps ?X = map (settle upd row' ps) ?X"
    by (rule upsert_all_present[of upd, OF k1])
  also have "\<dots> = ?X"
    using upsert_all_settled[of upd row' row, OF k1 k2 u2 u3 u4]
    by (simp add: map_idI)
  finally show ?thesis .
qed


lemma exec_each_InsertMovie:
  "exec_each (InsertMovie (Some a)) ps t = Inr (upsert_all movie_excluded (\<lambda>p. movie_values p a) ps t)"
  by (induction ps arbitrary: t) (simp_all add: upsert_all_def InsertMovie_def)

lemma exec_each_InsertEpisode:
  "exec_each (InsertEpisode (Some a)) ps t =
     Inr (upsert_all episode_excluded (\<lambda>p. episode_values p a) ps t)"
  by (induction ps arbitrary: t) (simp_all add: upsert_all_def InsertEpisode_def)

lemma exec_each_no_default:
  "exec_each (InsertMovie None) ps t =
     (if ps = [] then Inr t else Inl (NotNullConstraint ''movies.last_seen''))"
  "exec_each (InsertEpisode None) qs e =
     (if qs = [] then Inr e else Inl (NotNullConstraint ''episodes.last_seen''))"
  by (cases ps, simp_all add: InsertMovie_def) (cases qs, simp_all add: InsertEpisode_def)

lemma movie_excluded_facts:
  "item_key (movie_excluded r n) = item_key r"
  "item_key (movie_values p b) = item_key (movie_values p a)"
  "movie_excluded (movie_excluded r m) n = movie_excluded r n"
  "movie_excluded (movie_values p a) (movie_values p b) = movie_values p a"
  "movie_excluded r (movie_values p b) = movie_excluded r (movie_values p a)"
  by (simp_all add: movie_excluded_def movie_values_def item_key_def)

lemma episode_excluded_facts:
  "item_key (episode_excluded r' n') = item_key r'"
  "item_key (episode_values q b) = item_key (episode_values q a)"
  "episode_excluded (episode_excluded r' m') n' = episode_excluded r' n'"
  "episode_excluded (episode_values q a) (episode_values q b) = episode_values q a"
  "episode_excluded r' (episode_values q b) = episode_excluded r' (episode_values q a)"
  by (simp_all add: episode_excluded_def episode_values_def item_key_def)

lemma InsertMovies_twice:
  assumes "(d1 = None) = (d2 = None)"
  shows "snd (InsertMovies d2 srv items (snd (InsertMovies d1 srv items d))) =
         snd (InsertMovies d1 srv items d)"
proof (cases d1)
  case None
  with assms have "d2 = None" by simp
  with None show ?thesis
    by (simp add: InsertMovies_def exec_each_no_default)
next
  case (Some a)
  with assms obtain b where b: "d2 = Some b" by auto
  let ?ps = "map (MovieToInsertMovieParam srv) items"
  have "upsert_all movie_excluded (\<lambda>p. movie_values p b) ?ps
          (upsert_all movie_excluded (\<lambda>p. movie_values p a) ?ps (movies d)) =
        upsert_all movie_excluded (\<lambda>p. movie_values p a) ?ps (movies d)"
    by (rule upsert_all_twice) (simp_all add: movie_excluded_facts)
  then show ?thesis
    by (simp add: InsertMovies_def exec_each_InsertMovie Some b)
qed

lemma InsertEpisodes_twice:
  assumes "(d1 = None) = (d2 = None)"
  shows "snd (InsertEpisodes d2 srv items (snd (InsertEpisodes d1 srv items d))) =
         snd (InsertEpisodes d1 srv items d)"
proof (cases d1)
  case None
  with assms have "d2 = None" by simp
  with None show ?thesis
    by (simp add: InsertEpisodes_def exec_each_no_default)
next
  case (Some a)
  with assms obtain b where b: "d2 = Some b" by auto
  let ?ps = "map (EpisodeToInsertEpisodeParam srv) items"
  have "upsert_all episode_excluded (\<lambda>p. episode_values p b) ?ps
          (upsert_all episode_excluded (\<lambda>p. episode_values p a) ?ps (episodes d)) =
        upsert_all episode_excluded (\<lambda>p. episode_values p a) ?ps (episodes d)"
    by (rule upsert_all_twice) (simp_all add: episode_excluded_facts)
  then show ?thesis
    by (simp add: InsertEpisodes_def exec_each_InsertEpisode Some b)
qed

lemma InsertMovies_unique:
  assumes "unique_items (movies d)"
  shows "unique_items (movies (snd (InsertMovies d1 srv items d)))"
proof (cases d1)
  case None
  with assms show ?thesis by (simp add: InsertMovies_def exec_each_no_default)
next
  case (Some a)
  have "unique_items (upsert_all movie_excluded (\<lambda>p. movie_values p a)
          (map (MovieToInsertMovieParam srv) items) (movies d))"
    by (rule upsert_all_unique) (simp_all add: movie_excluded_facts assms)
  then show ?thesis by (simp add: InsertMovies_def exec_each_InsertMovie Some)
qed

lemma InsertEpisodes_unique:
  assumes "unique_items (episodes d)"
  shows "unique_items (episodes (snd (InsertEpisodes d1 srv items d)))"
proof (cases d1)
  case None
  with assms show ?thesis by (simp add: InsertEpisodes_def exec_each_no_default)
next
  case (Some a)
  have "unique_items (upsert_all episode_excluded (\<lambda>p. episode_values p a)
          (map (EpisodeToInsertEpisodeParam srv) items) (episodes d))"
    by (rule upsert_all_unique) (simp_all add: episode_excluded_facts assms)
  then show ?thesis by (simp add: InsertEpisodes_def exec_each_InsertEpisode Some)
qed

text \<open>
  C8. Upserting the same batch of a server a second time leaves the snapshot table exactly
  as the first pass left it, for movies and for episodes, and the table keeps one row per
  \<open>(server, local_id)\<close>. The two passes may read different values for the \<open>last_seen\<close> of
  a new row; the schema is the same in both (the column has a default in both or in
  neither).
\<close>

theorem ingest_idempotent:
  assumes "(d1 = None) = (d2 = None)"
    and "unique_items (movies d)" and "unique_items (episodes d)"
  shows "snd (InsertMovies d2 srv items (snd (InsertMovies d1 srv items d))) =
           snd (InsertMovies d1 srv items d) \<and>
         unique_items (movies (snd (InsertMovies d1 srv items d))) \<and>
         snd (InsertEpisodes d2 srv items (snd (InsertEpisodes d1 srv items d))) =
           snd (InsertEpisodes d1 srv items d) \<and>
         unique_items (episodes (snd (InsertEpisodes d1 srv items d)))"
  using assms
  by (simp add: InsertMovies_twice InsertEpisodes_twice InsertMovies_unique InsertEpisodes_unique)

theorem ingest_idempotent_witness:
  "((Some 100 :: int64 option) = None) = ((Some 200 :: int64 option) = None) \<and>
   unique_items (movies empty_db) \<and> unique_items (episodes empty_db) \<and>
   snd (InsertMovies (Some 200) ''dd'' [matrix_item ''1'' ''tt0133093'' ''603'']
          (snd (InsertMovies (Some 100) ''dd'' [matrix_item ''1'' ''tt0133093'' ''603''] empty_db))) =
     snd (InsertMovies (Some 100) ''dd'' [matrix_item ''1'' ''tt0133093'' ''603''] empty_db)"
  using ingest_idempotent[of "Some 100" "Some 200" empty_db "''dd''"
      "[matrix_item ''1'' ''tt0133093'' ''603'']"]
  by (simp add: empty_db_def unique_items_def)

section \<open>Pruning after a fetch\<close>

lemma prune_other_servers:
  "filter (\<lambda>r. server r \<noteq> srv) (delete_not_seen_since srv since t) =
   filter (\<lambda>r. server r \<noteq> srv) t"
  unfolding delete_not_seen_since_def filter_filter
  by (rule filter_cong) auto

lemma prune_survivors:
  "r \<in> set (delete_not_seen_since srv since t) \<Longrightarrow> server r = srv \<Longrightarrow> since \<le> last_seen r"
  by (auto simp: delete_not_seen_since_def)

text \<open>
  C5 at a failing input. The table holds the row of item \<open>1\<close> of server \<open>dd\<close>, last seen at
  100. A full fetch of \<open>dd\<close> returns item \<open>1\<close> again and is upserted, and the prune runs with
  a cycle start of 200. The upsert does not assign \<open>last_seen\<close> (the column is in neither
  the column list nor the \<open>DO UPDATE SET\<close> list of the statement), so the row still carries
  100 and the prune deletes it, whatever default the store applies to the column: the item
  was in the fetch and has no row afterwards.
\<close>

theorem prune_deletes_refetched_item:
  "movies (snd (RemoveItemsNotSeenSince ''dd'' ItemMovie (time_Unix 200)
      (snd (InsertItems dflt ''dd'' ItemMovie [matrix_item ''1'' ''tt0133093'' ''603'']
         (empty_db\<lparr>movies := [matrix_row ''dd'' ''1'' 0 False 100]\<rparr>))))) = []"
proof (cases dflt)
  case None
  then show ?thesis
    by (simp add: RemoveItemsNotSeenSince_def InsertItems_def InsertMovies_def InsertMovie_def
        ItemMovie_def ItemEpisode_def IsZero_def time_Unix_def zero_time_def Unix_def
        RemoveMoviesNotSeenSince_def delete_not_seen_since_def matrix_row_def empty_db_def)
next
  case (Some ls)
  then show ?thesis
    by (simp add: RemoveItemsNotSeenSince_def InsertItems_def InsertMovies_def InsertMovie_def
        ItemMovie_def ItemEpisode_def IsZero_def time_Unix_def zero_time_def Unix_def
        RemoveMoviesNotSeenSince_def delete_not_seen_since_def matrix_row_def empty_db_def
        on_conflict_update_def same_item_def movie_values_def MovieToInsertMovieParam_def
        matrix_item_def movie_excluded_def)
qed

section \<open>Paginated listing\<close>

lemma GetItems_loop_unfold:
  assumes "page startIndex = Inr response"
  shows "GetItems_loop page opts startIndex acc =
     (if page_ends opts startIndex response \<or> fst (page_items (Since opts) (r_Items response))
      then Some (Inr (listing (acc @ snd (page_items (Since opts) (r_Items response)))))
      else GetItems_loop page opts (startIndex + Limit opts)
             (acc @ snd (page_items (Since opts) (r_Items response))))"
  by (subst GetItems_loop.simps) (simp add: assms Let_def page_ends_def listing_def)

text \<open>
  A full listing of a server that answers with the slices of its catalogue ends and returns
  the whole catalogue.
\<close>

lemma full_listing_from:
  assumes L: "0 < Limit opts" and s: "Since opts = None" and i: "0 \<le> i"
  shows "GetItems_loop (serve cat (Limit opts)) opts i acc = Some (Inr (listing (acc @ drop (nat i) cat)))"
  using i
proof (induction "length cat - nat i" arbitrary: i acc rule: less_induct)
  case less
  let ?rest = "drop (nat i) cat"
  let ?page = "take (nat (Limit opts)) ?rest"
  let ?resp = "\<lparr> r_Items = ?page, r_TotalRecordCount = int (length cat), r_StartIndex = i \<rparr>"
  have srv: "serve cat (Limit opts) i = Inr ?resp" by (simp add: serve_def)
  have items: "\<And>xs. snd (page_items (Since opts) xs) = xs"
    "\<And>xs. fst (page_items (Since opts) xs) = False"
    by (simp_all add: page_items_def s)
  show ?case
  proof (cases "length ?rest \<le> nat (Limit opts)")
    case True
    then have page: "?page = ?rest" by simp
    have "page_ends opts i ?resp"
      using less.prems L by (auto simp: page_ends_def page)
    then show ?thesis
      unfolding GetItems_loop_unfold[of "serve cat (Limit opts)" i ?resp opts acc, OF srv]
      by (simp add: items page del: take_all_iff)
  next
    case False
    then have len: "length ?page = nat (Limit opts)" by simp
    from False have lt: "nat i + nat (Limit opts) < length cat" by simp
    have "\<not> page_ends opts i ?resp"
      using less.prems L lt by (simp add: page_ends_def len)
    then have "GetItems_loop (serve cat (Limit opts)) opts i acc =
        GetItems_loop (serve cat (Limit opts)) opts (i + Limit opts) (acc @ ?page)"
      unfolding GetItems_loop_unfold[of "serve cat (Limit opts)" i ?resp opts acc, OF srv]
      by (simp add: items)
    also have "\<dots> = Some (Inr (listing ((acc @ ?page) @ drop (nat (i + Limit opts)) cat)))"
      using less.prems L lt by (intro less.hyps) (auto simp: nat_add_distrib)
    also have "(acc @ ?page) @ drop (nat (i + Limit opts)) cat = acc @ ?rest"
    proof -
      have "nat (i + Limit opts) = nat (Limit opts) + nat i"
        using less.prems L by (simp add: nat_add_distrib)
      then have "drop (nat (i + Limit opts)) cat = drop (nat (Limit opts)) ?rest"
        by (simp only: drop_drop)
      then have "?page @ drop (nat (i + Limit opts)) cat = ?rest"
        by (simp only: append_take_drop_id)
      then show ?thesis by (simp only: append_assoc)
    qed
    finally show ?thesis .
  qed
qed

lemma full_listing_of_catalogue:
  assumes "valid_opts opts" "Since opts = None" "StartIndex opts = 0"
  shows "GetItems (serve cat (Limit opts)) opts = Some (Inr (listing cat))"
proof -
  from assms(1) have "0 < Limit opts" by (simp add: valid_opts_def)
  from full_listing_from[OF this assms(2), of 0 cat "[]"] assms show ?thesis
    by (simp add: GetItems_def)
qed

text \<open>
  C9, as the code has it, for the page the server returns at a start index. Without
  \<open>since\<close> the whole page is kept, and the listing ends exactly when the page is short or
  the start index plus the items returned reaches the reported total. With \<open>since\<close>: if
  the last item of the page was played before \<open>since\<close>, only the items played strictly
  after \<open>since\<close> are kept and the listing ends; otherwise (also on an empty page) the whole
  page is kept, and the listing goes on to the next page unless the page is short or the
  total is reached, as without \<open>since\<close>.
\<close>

theorem GetItems_page_by_page:
  assumes "page startIndex = Inr response"
  shows
   "(Since opts = None \<longrightarrow>
       GetItems_loop page opts startIndex acc =
         (if page_ends opts startIndex response then Some (Inr (listing (acc @ r_Items response)))
          else GetItems_loop page opts (startIndex + Limit opts) (acc @ r_Items response))) \<and>
    (\<forall>since. Since opts = Some since \<and> r_Items response \<noteq> [] \<and>
        Before (LastPlayedDate (UserData (last (r_Items response)))) since \<longrightarrow>
       GetItems_loop page opts startIndex acc =
         Some (Inr (listing (acc @
           filter (\<lambda>item. After (LastPlayedDate (UserData item)) since) (r_Items response))))) \<and>
    (\<forall>since. Since opts = Some since \<and>
        (r_Items response = [] \<or>
         \<not> Before (LastPlayedDate (UserData (last (r_Items response)))) since) \<longrightarrow>
       GetItems_loop page opts startIndex acc =
         (if page_ends opts startIndex response then Some (Inr (listing (acc @ r_Items response)))
          else GetItems_loop page opts (startIndex + Limit opts) (acc @ r_Items response)))"
  unfolding GetItems_loop_unfold[of page startIndex response opts acc, OF assms]
  by (auto simp: page_items_def lastElement_def)

theorem GetItems_page_by_page_witness:
  "GetItems_loop (serve [played_at ''1'' 20, played_at ''2'' 5] 25) (delta_opts 10 ItemMovie) 0 []
     = Some (Inr (listing [played_at ''1'' 20]))"
  using GetItems_page_by_page[of "serve [played_at ''1'' 20, played_at ''2'' 5] 25" 0
      "\<lparr> r_Items = [played_at ''1'' 20, played_at ''2'' 5], r_TotalRecordCount = 2, r_StartIndex = 0 \<rparr>"
      "delta_opts 10 ItemMovie" "[]"]
  by (simp add: serve_def delta_opts_def Before_def After_def played_at_def never_played_def)

text \<open>
  C9 as stated lets a delta listing continue whenever the last item of the page is not
  before \<open>since\<close>. Here the only page holds one item played after \<open>since\<close>: the code
  returns it after this one request, which is not what the listing continued at the next
  start index returns.
\<close>

theorem GetItems_continues_counterexample:
  "Since (delta_opts 10 ItemMovie) = Some 10 \<and>
   \<not> Before (LastPlayedDate (UserData (played_at ''1'' 20))) 10 \<and>
   GetItems (\<lambda>i. if i = 0 then Inr \<lparr> r_Items = [played_at ''1'' 20], r_TotalRecordCount = 1,
                                          r_StartIndex = 0 \<rparr>
                    else Inl (RequestFailed ''no such page''))
     (delta_opts 10 ItemMovie) = Some (Inr (listing [played_at ''1'' 20])) \<and>
   GetItems_loop (\<lambda>i. if i = 0 then Inr \<lparr> r_Items = [played_at ''1'' 20], r_TotalRecordCount = 1,
                                          r_StartIndex = 0 \<rparr>
                    else Inl (RequestFailed ''no such page''))
     (delta_opts 10 ItemMovie) (0 + Limit (delta_opts 10 ItemMovie)) ([] @ [played_at ''1'' 20])
     = Some (Inl (RequestFailed ''no such page''))"
  apply (intro conjI)
     apply (simp add: delta_opts_def)
    apply (simp add: Before_def played_at_def never_played_def)
   apply (simp add: GetItems_def valid_opts_def delta_opts_def ItemMovie_def)
   apply (subst GetItems_loop.simps)
   apply (simp add: page_items_def lastElement_def Before_def played_at_def never_played_def listing_def)
  apply (subst GetItems_loop.simps)
  apply (simp add: delta_opts_def)
  done

section \<open>Phase A: reading the watermark\<close>

text \<open>
  C10. When the store has no watermark row for the server and item type, \<open>GetState\<close>
  returns \<open>sql.ErrNoRows\<close> together with the zero time. The worker does not return that
  error and does not skip the server: with the user id resolved it requests the full
  listing (limit 500, no \<open>since\<close>), and the error it returns, if any, is the one of the
  listing, of the upsert or of the prune.
\<close>

theorem watermark_read_failure_full_listing:
  assumes "state (db a) (srv, itemType) = None" and "if_GetUserId client = Inr userId"
  shows "GetState (db a) srv itemType = (zero_time, Some ErrNoRows) \<and>
         calls (snd (fetchUpdateFromJellyfin dflt start itemType srv client a)) =
           calls a @ [FetchStarted srv itemType,
                      ItemsRequested srv \<lparr> Limit = 500, Since = None, StartIndex = 0, SortBy = [],
                                            SortOrder = [], Type = itemType \<rparr>] \<and>
         fst (fetchUpdateFromJellyfin dflt start itemType srv client a) =
           (case if_GetItems client userId (full_opts itemType) of
              Inl err \<Rightarrow> Some err
            | Inr items \<Rightarrow>
                (case InsertItems dflt srv itemType (r_Items items) (db a) of
                   (Some err, d) \<Rightarrow> Some err
                 | (None, d) \<Rightarrow> fst (RemoveItemsNotSeenSince srv itemType start d)))"
proof -
  have gs: "GetState (db a) srv itemType = (zero_time, Some ErrNoRows)"
    using assms(1) by (simp add: GetState_def)
  have opts: "getQueryOpts (record_call (FetchStarted srv itemType) a) zero_time srv itemType =
      Inr (full_opts itemType)"
    by (simp add: getQueryOpts_def IsZero_def)
  have db: "db (record_call (FetchStarted srv itemType) a) = db a"
    by (simp add: record_call_def)
  show ?thesis
    using gs opts assms(2)
    by (auto simp: fetchUpdateFromJellyfin_def Let_def db record_call_def full_opts_def
        split: sum.splits prod.splits option.splits)
qed

theorem watermark_read_failure_full_listing_witness:
  "state (db (app_on empty_db)) (''dd'', ItemMovie) = None \<and>
   if_GetUserId (lister [matrix_item ''1'' ''tt0133093'' ''603'']) = Inr ''u1'' \<and>
   calls (snd (fetchUpdateFromJellyfin None 200 ItemMovie ''dd''
                 (lister [matrix_item ''1'' ''tt0133093'' ''603'']) (app_on empty_db))) =
     [FetchStarted ''dd'' ItemMovie,
      ItemsRequested ''dd'' \<lparr> Limit = 500, Since = None, StartIndex = 0, SortBy = [],
                              SortOrder = [], Type = ItemMovie \<rparr>]"
  using watermark_read_failure_full_listing[of "app_on empty_db" "''dd''" ItemMovie
      "lister [matrix_item ''1'' ''tt0133093'' ''603'']" "''u1''" None 200]
  by (simp add: app_on_def empty_db_def lister_def)

section \<open>Phase B: the watermark after the apply phase\<close>

lemma update_item_step:
  assumes "update_item now srv client userId item (lo, enc, errs, a) = (lo1, enc1, errs1, a1)"
  shows "lo1 = min (u_WatchedDate item) lo \<and>
         enc1 = (enc \<or> write_fails client userId item) \<and>
         (errs1 = []) = (errs = [] \<and> \<not> write_fails client userId item) \<and>
         state (db a1) = state (db a) \<and> movies (db a1) = movies (db a) \<and>
         episodes (db a1) = episodes (db a)"
  using assms
  by (auto simp: update_item_def Let_def write_fails_def record_call_def InsertChangelog_def
      split: option.splits)

lemma fold_update_item:
  "fold (update_item now srv client userId) items (lo, enc, errs, a) = (lo', enc', errs', a') \<Longrightarrow>
   lo' = Min (insert lo (u_WatchedDate ` set items)) \<and>
   enc' = (enc \<or> list_ex (write_fails client userId) items) \<and>
   (errs' = []) = (errs = [] \<and> \<not> list_ex (write_fails client userId) items) \<and>
   state (db a') = state (db a) \<and> movies (db a') = movies (db a) \<and>
   episodes (db a') = episodes (db a)"
proof (induction items arbitrary: lo enc errs a)
  case Nil
  then show ?case by simp
next
  case (Cons item items)
  obtain lo1 enc1 errs1 a1 where
    step: "update_item now srv client userId item (lo, enc, errs, a) = (lo1, enc1, errs1, a1)"
    by (cases "update_item now srv client userId item (lo, enc, errs, a)") auto
  from Cons.prems have f:
    "fold (update_item now srv client userId) items (lo1, enc1, errs1, a1) = (lo', enc', errs', a')"
    by (simp add: step)
  note ih = Cons.IH[OF f]
  note st = update_item_step[OF step]
  have "Min (insert lo1 (u_WatchedDate ` set items)) =
        Min (insert lo (u_WatchedDate ` set (item # items)))"
  proof -
    have "insert lo (u_WatchedDate ` set (item # items)) =
          insert lo (insert (u_WatchedDate item) (u_WatchedDate ` set items))" by simp
    moreover have "Min (insert lo (insert (u_WatchedDate item) (u_WatchedDate ` set items))) =
          Min (insert (min (u_WatchedDate item) lo) (u_WatchedDate ` set items))"
      by (cases "set items = {}") (simp_all add: min.commute min.left_commute min.assoc)
    ultimately show ?thesis using st by simp
  qed
  with ih st show ?case by auto
qed


lemma wrap64_id: "MinInt64 \<le> x \<Longrightarrow> x \<le> MaxInt64 \<Longrightarrow> wrap64 x = x"
  by (simp add: wrap64_def MinInt64_def MaxInt64_def)

lemma Unix_time_Unix: "Unix (time_Unix x) = x"
  by (simp add: Unix_def time_Unix_def)

lemma stale_rows_record_call: "stale_rows (record_call c a) itemType srv = stale_rows a itemType srv"
  by (simp add: stale_rows_def record_call_def)

lemma db_record_call: "db (record_call c a) = db a"
  by (simp add: record_call_def)

lemma apply_phase_empty:
  assumes "stale_rows a itemType srv = Inr []"
  shows "synchronizeSingleUpdatedUserData now itemType srv client a =
     (case UpsertState srv itemType now (db a) of
        Inl err \<Rightarrow> ([], record_call (ApplyStarted srv itemType) a)
      | Inr d \<Rightarrow> ([], (record_call (ApplyStarted srv itemType) a)\<lparr>db := d\<rparr>))"
  using assms
  by (simp add: synchronizeSingleUpdatedUserData_def Let_def stale_rows_record_call db_record_call)

lemma apply_phase_writes:
  assumes st: "stale_rows a itemType srv = Inr updated" and ne: "updated \<noteq> []"
    and uid: "if_GetUserId client = Inr userId"
  obtains errs a1 where
    "fold (update_item now srv client userId) updated
       (MaxInt64, False, [], record_call (ApplyStarted srv itemType) a) =
     (Min (insert MaxInt64 (u_WatchedDate ` set updated)),
      list_ex (write_fails client userId) updated, errs, a1)"
    "(errs = []) = (\<not> list_ex (write_fails client userId) updated)"
    "state (db a1) = state (db a)"
    "synchronizeSingleUpdatedUserData now itemType srv client a =
       (if \<not> list_ex (write_fails client userId) updated then
          (case UpsertState srv itemType
                  (time_Unix (wrap64 (Min (insert MaxInt64 (u_WatchedDate ` set updated)) - 1)))
                  (db a1) of
             Inl err \<Rightarrow> (errs, a1)
           | Inr d \<Rightarrow> (errs, a1\<lparr>db := d\<rparr>))
        else (errs, a1))"
proof -
  let ?a = "record_call (ApplyStarted srv itemType) a"
  obtain lo enc errs a1 where
    f: "fold (update_item now srv client userId) updated (MaxInt64, False, [], ?a) = (lo, enc, errs, a1)"
    by (cases "fold (update_item now srv client userId) updated (MaxInt64, False, [], ?a)") auto
  note r = fold_update_item[OF f]
  have lo: "lo = Min (insert MaxInt64 (u_WatchedDate ` set updated))" using r by simp
  have enc: "enc = list_ex (write_fails client userId) updated" using r by simp
  have errs: "(errs = []) = (\<not> list_ex (write_fails client userId) updated)" using r by simp
  have stt: "state (db a1) = state (db a)" using r by (simp add: record_call_def)
  have "synchronizeSingleUpdatedUserData now itemType srv client a =
       (if \<not> enc then
          (case UpsertState srv itemType (time_Unix (wrap64 (lo - 1))) (db a1) of
             Inl err \<Rightarrow> (errs, a1)
           | Inr d \<Rightarrow> (errs, a1\<lparr>db := d\<rparr>))
        else (errs, a1))"
    using st ne uid f
    by (simp add: synchronizeSingleUpdatedUserData_def Let_def stale_rows_record_call)
  with f errs stt show ?thesis
    unfolding lo enc by (rule that)
qed

text \<open>
  C3, as the code has it, for a server and an item type whose stale set is \<open>updated\<close>. If
  the stale set is empty and the clock reads a positive Unix time, the stored watermark is
  that time and no error is returned. If the stale set is not empty, the user id resolves,
  every write succeeds and the least \<open>watched_date\<close> of the batch minus 1 is positive, the
  stored watermark is that value and no error is returned. If the user id resolves and a
  write fails, the watermark table is left as it was and an error is returned. (The
  \<open>state\<close> table rejects a watermark that is not positive, and the rejection is only
  logged.)
\<close>

theorem apply_phase_watermark:
  assumes st: "stale_rows a itemType srv = Inr updated"
  shows
   "(updated = [] \<and> 0 < Unix now \<longrightarrow>
       state (db (snd (synchronizeSingleUpdatedUserData now itemType srv client a))) (srv, itemType)
         = Some (Unix now) \<and>
       fst (synchronizeSingleUpdatedUserData now itemType srv client a) = []) \<and>
    (updated \<noteq> [] \<and> if_GetUserId client = Inr userId \<and>
     \<not> list_ex (write_fails client userId) updated \<and>
     (\<forall>item\<in>set updated. u_WatchedDate item \<le> MaxInt64) \<and>
     0 < Min (u_WatchedDate ` set updated) - 1 \<longrightarrow>
       state (db (snd (synchronizeSingleUpdatedUserData now itemType srv client a))) (srv, itemType)
         = Some (Min (u_WatchedDate ` set updated) - 1) \<and>
       fst (synchronizeSingleUpdatedUserData now itemType srv client a) = []) \<and>
    (updated \<noteq> [] \<and> if_GetUserId client = Inr userId \<and>
     list_ex (write_fails client userId) updated \<longrightarrow>
       state (db (snd (synchronizeSingleUpdatedUserData now itemType srv client a))) = state (db a) \<and>
       fst (synchronizeSingleUpdatedUserData now itemType srv client a) \<noteq> [])"
proof (intro conjI impI)
  assume "updated = [] \<and> 0 < Unix now"
  then have e: "stale_rows a itemType srv = Inr []" and n: "0 < Unix now" using st by auto
  show "state (db (snd (synchronizeSingleUpdatedUserData now itemType srv client a))) (srv, itemType)
         = Some (Unix now)"
    unfolding apply_phase_empty[OF e] using n by (simp add: UpsertState_def record_call_def)
  show "fst (synchronizeSingleUpdatedUserData now itemType srv client a) = []"
    unfolding apply_phase_empty[OF e] by (simp split: sum.splits)
next
  assume h: "updated \<noteq> [] \<and> if_GetUserId client = Inr userId \<and>
     \<not> list_ex (write_fails client userId) updated \<and>
     (\<forall>item\<in>set updated. u_WatchedDate item \<le> MaxInt64) \<and>
     0 < Min (u_WatchedDate ` set updated) - 1"
  then have ne: "updated \<noteq> []" and uid: "if_GetUserId client = Inr userId"
    and ok: "\<not> list_ex (write_fails client userId) updated"
    and rng: "\<forall>item\<in>set updated. u_WatchedDate item \<le> MaxInt64"
    and pos: "0 < Min (u_WatchedDate ` set updated) - 1" by auto
  let ?m = "Min (u_WatchedDate ` set updated)"
  from ne have fin: "finite (u_WatchedDate ` set updated)" "u_WatchedDate ` set updated \<noteq> {}"
    by auto
  from ne obtain x where x: "x \<in> set updated" by (cases updated) auto
  then have "?m \<le> u_WatchedDate x" by simp
  moreover from rng x have "u_WatchedDate x \<le> MaxInt64" by blast
  ultimately have mle: "?m \<le> MaxInt64" by (rule order_trans)
  have mins: "Min (insert MaxInt64 (u_WatchedDate ` set updated)) = min MaxInt64 ?m"
    using fin by (rule Min_insert)
  have lo: "Min (insert MaxInt64 (u_WatchedDate ` set updated)) = ?m"
    unfolding mins using mle by (rule min_absorb2)
  from mle pos have w: "wrap64 (?m - 1) = ?m - 1"
    by (intro wrap64_id) (simp_all add: MinInt64_def MaxInt64_def)
  from apply_phase_writes[OF st ne uid, of now] obtain errs a1 where
    errs: "(errs = []) = (\<not> list_ex (write_fails client userId) updated)"
    and r: "synchronizeSingleUpdatedUserData now itemType srv client a =
       (if \<not> list_ex (write_fails client userId) updated then
          (case UpsertState srv itemType
                  (time_Unix (wrap64 (Min (insert MaxInt64 (u_WatchedDate ` set updated)) - 1)))
                  (db a1) of
             Inl err \<Rightarrow> (errs, a1)
           | Inr d \<Rightarrow> (errs, a1\<lparr>db := d\<rparr>))
        else (errs, a1))"
    by blast
  show "state (db (snd (synchronizeSingleUpdatedUserData now itemType srv client a))) (srv, itemType)
         = Some (?m - 1)"
    unfolding r lo w using ok pos by (simp add: UpsertState_def Unix_time_Unix)
  show "fst (synchronizeSingleUpdatedUserData now itemType srv client a) = []"
    unfolding r using ok errs by (simp split: sum.splits)
next
  assume h: "updated \<noteq> [] \<and> if_GetUserId client = Inr userId \<and>
     list_ex (write_fails client userId) updated"
  then have ne: "updated \<noteq> []" and uid: "if_GetUserId client = Inr userId"
    and bad: "list_ex (write_fails client userId) updated" by auto
  from apply_phase_writes[OF st ne uid, of now] obtain errs a1 where
    errs: "(errs = []) = (\<not> list_ex (write_fails client userId) updated)"
    and stt: "state (db a1) = state (db a)"
    and r: "synchronizeSingleUpdatedUserData now itemType srv client a =
       (if \<not> list_ex (write_fails client userId) updated then
          (case UpsertState srv itemType
                  (time_Unix (wrap64 (Min (insert MaxInt64 (u_WatchedDate ` set updated)) - 1)))
                  (db a1) of
             Inl err \<Rightarrow> (errs, a1)
           | Inr d \<Rightarrow> (errs, a1\<lparr>db := d\<rparr>))
        else (errs, a1))"
    by blast
  show "state (db (snd (synchronizeSingleUpdatedUserData now itemType srv client a))) = state (db a)"
    unfolding r using bad stt by simp
  show "fst (synchronizeSingleUpdatedUserData now itemType srv client a) \<noteq> []"
    unfolding r using bad errs by simp
qed

lemma matrix_key: "movie_match_key (matrix_row s l w f x) = ''imdb_'' @ int_to_text 133093"
  by (simp add: movie_match_key_def matrix_row_def)

lemma stale_example:
  "0 < w \<Longrightarrow> stale_rows (app_on (empty_db\<lparr>movies := [matrix_row ''dd'' ''1'' 0 False 0,
        matrix_row ''ez'' ''2'' w True 0]\<rparr>)) ItemMovie ''dd'' =
     Inr [\<lparr> u_LocalID = ''1'', u_Name = ''The Matrix'', u_SeriesName = [], u_WatchedDate = w,
            u_WatchedProgress = 0, u_WatchedPositionTicks = w * 7, u_IsFavorite = True \<rparr>]"
  apply (simp add: stale_rows_def app_on_def empty_db_def GetMoviesWithUpdatedUserData_def
      GetMovieWithGreatestWatchedDate_def stale_pairs_def local_rows_def best_remote_def max_remote_def
      matrix_key movie_result_def)
  apply (simp add: matrix_row_def)
  done

lemma stale_example_none:
  "stale_rows (app_on (empty_db\<lparr>movies := [matrix_row ''dd'' ''1'' 0 False 0,
        matrix_row ''ez'' ''2'' w True 0]\<rparr>)) ItemMovie ''ez'' = Inr []"
  apply (simp add: stale_rows_def app_on_def empty_db_def GetMoviesWithUpdatedUserData_def
      GetMovieWithGreatestWatchedDate_def stale_pairs_def local_rows_def best_remote_def max_remote_def
      matrix_key movie_result_def)
  apply (simp add: matrix_row_def)
  done

theorem apply_phase_watermark_witness:
  "state (db (snd (synchronizeSingleUpdatedUserData (time_Unix 1750000300) ItemMovie ''dd'' (lister [])
      (app_on (empty_db\<lparr>movies := [matrix_row ''dd'' ''1'' 0 False 0,
        matrix_row ''ez'' ''2'' 1750000000 True 0]\<rparr>))))) (''dd'', ItemMovie) = Some 1749999999 \<and>
   state (db (snd (synchronizeSingleUpdatedUserData (time_Unix 1750000300) ItemMovie ''ez'' (lister [])
      (app_on (empty_db\<lparr>movies := [matrix_row ''dd'' ''1'' 0 False 0,
        matrix_row ''ez'' ''2'' 1750000000 True 0]\<rparr>))))) (''ez'', ItemMovie) = Some 1750000300"
  using apply_phase_watermark[OF stale_example[of 1750000000], of "time_Unix 1750000300" "lister []" "''u1''"]
        apply_phase_watermark[OF stale_example_none[of 1750000000], of "time_Unix 1750000300" "lister []" "''u1''"]
  by (simp add: lister_def write_fails_def MaxInt64_def Unix_time_Unix)

text \<open>
  C3 as stated fails where the least \<open>watched_date\<close> of the batch is 1: the write succeeds,
  the phase returns no error, and the watermark \<open>Unix(1 - 1)\<close> is rejected by the
  \<open>CHECK (last_sync > 0)\<close> of the \<open>state\<close> table, so no watermark is stored.
\<close>

theorem apply_phase_watermark_counterexample:
  "stale_rows (app_on (empty_db\<lparr>movies := [matrix_row ''dd'' ''1'' 0 False 0,
        matrix_row ''ez'' ''2'' 1 True 0]\<rparr>)) ItemMovie ''dd'' =
     Inr [\<lparr> u_LocalID = ''1'', u_Name = ''The Matrix'', u_SeriesName = [], u_WatchedDate = 1,
            u_WatchedProgress = 0, u_WatchedPositionTicks = 7, u_IsFavorite = True \<rparr>] \<and>
   fst (synchronizeSingleUpdatedUserData (time_Unix 1750000300) ItemMovie ''dd'' (lister [])
      (app_on (empty_db\<lparr>movies := [matrix_row ''dd'' ''1'' 0 False 0,
        matrix_row ''ez'' ''2'' 1 True 0]\<rparr>))) = [] \<and>
   state (db (snd (synchronizeSingleUpdatedUserData (time_Unix 1750000300) ItemMovie ''dd'' (lister [])
      (app_on (empty_db\<lparr>movies := [matrix_row ''dd'' ''1'' 0 False 0,
        matrix_row ''ez'' ''2'' 1 True 0]\<rparr>))))) (''dd'', ItemMovie) = None"
proof -
  let ?a = "app_on (empty_db\<lparr>movies := [matrix_row ''dd'' ''1'' 0 False 0,
        matrix_row ''ez'' ''2'' 1 True 0]\<rparr>)"
  have st: "stale_rows ?a ItemMovie ''dd'' =
     Inr [\<lparr> u_LocalID = ''1'', u_Name = ''The Matrix'', u_SeriesName = [], u_WatchedDate = 1,
            u_WatchedProgress = 0, u_WatchedPositionTicks = 7, u_IsFavorite = True \<rparr>]"
    using stale_example[of 1] by simp
  have run: "synchronizeSingleUpdatedUserData (time_Unix 1750000300) ItemMovie ''dd'' (lister []) ?a =
     ([], (record_call (UserDataPosted ''dd'' ''1'') (record_call (ApplyStarted ''dd'' ItemMovie) ?a))
            \<lparr>db := InsertChangelog (time_Unix 1750000300) ''dd''
                \<lparr> cd_LocalID = ''1'', cd_NewWatchedDate = 1, cd_NewWatchedProgress = 0,
                  cd_NewWatchedPositionTicks = 7, cd_NewIsFavorite = True \<rparr> (db ?a)\<rparr>)"
    by (simp add: synchronizeSingleUpdatedUserData_def Let_def stale_rows_record_call st
        lister_def update_item_def db_record_call getChangelogData_def UpsertState_def
        MaxInt64_def wrap64_def Unix_time_Unix)
  show ?thesis
    unfolding run using st
    by (simp add: InsertChangelog_def app_on_def empty_db_def)
qed
section \<open>Evaluating the engine\<close>

lemmas fetch_defs = fetchUpdatesFromJellyfin_def fetchUpdateFromJellyfin_def error_list_def
  record_call_def Let_def GetState_def getQueryOpts_def go_quo32_def go_rem32_def wrap32_def
  full_opts_def delta_opts_def InsertItems_def InsertMovies_def InsertEpisodes_def InsertMovie_def
  InsertEpisode_def RemoveItemsNotSeenSince_def RemoveMoviesNotSeenSince_def
  RemoveEpisodesNotSeenSince_def delete_not_seen_since_def IsZero_def zero_time_def time_Unix_def
  Unix_def ItemMovie_def ItemEpisode_def lister_def listing_def
  on_conflict_update_def same_item_def movie_values_def movie_excluded_def
  MovieToInsertMovieParam_def SanitizeAndParseInt64_def ParseInt_def ParseUint_def IsDigit_def
  digits_val_def digit_val_def NullInt64_def matrix_item_def played_at_def never_played_def

lemmas apply_defs = synchronizeUpdatedUserData_def synchronizeSingleUpdatedUserData_def
  record_call_def Let_def UpsertState_def time_Unix_def Unix_def lister_def
  update_item_def AsUserData_def getChangelogData_def InsertChangelog_def MaxInt64_def wrap64_def

lemma stale_no_episodes:
  assumes "episodes (db a) = []"
  shows "stale_rows a ''Episode'' srv = Inr []"
  using assms
  by (simp add: stale_rows_def ItemMovie_def ItemEpisode_def
     GetEpisodesWithUpdatedUserData_def GetEpisodeWithGreatestWatchedDate_def stale_pairs_def
     local_rows_def)

lemma stale_no_movies:
  assumes "movies (db a) = []"
  shows "stale_rows a ''Movie'' srv = Inr []"
  using assms
  by (simp add: stale_rows_def ItemMovie_def 
     GetMoviesWithUpdatedUserData_def GetMovieWithGreatestWatchedDate_def stale_pairs_def
     local_rows_def)

lemma each_client_snd:
  "snd (each_client worker ((srv, client) # cs) a) =
   snd (each_client worker cs (snd (worker srv client a)))"
  by (simp split: prod.splits)

lemma snd_error_list: "snd (error_list r) = snd r"
  by (cases r) (auto simp: error_list_def split: option.splits)

lemma types_differ: "ItemMovie \<noteq> ItemEpisode"
  by (simp add: ItemMovie_def ItemEpisode_def)


section \<open>The watermark over cycles\<close>

lemma stale_rows_positive:
  assumes "stale_rows a itemType srv = Inr updated"
  shows "\<forall>item\<in>set updated. 0 < u_WatchedDate item"
proof
  fix item assume i: "item \<in> set updated"
  show "0 < u_WatchedDate item"
  proof (cases "itemType = ItemMovie")
    case True
    with assms i obtain le b where
      "(le, b) \<in> set (stale_pairs movie_match_key srv (movies (db a)))" "item = movie_result (le, b)"
      by (auto simp: stale_rows_def GetMoviesWithUpdatedUserData_def GetMovieWithGreatestWatchedDate_def)
    with stale_pairs_mem(5)[of le b movie_match_key srv "movies (db a)"] show ?thesis
      by (simp add: movie_result_def)
  next
    case False
    with assms i obtain le b where
      "(le, b) \<in> set (stale_pairs episode_match_key srv (episodes (db a)))" "item = episode_result (le, b)"
      by (auto simp: stale_rows_def GetEpisodesWithUpdatedUserData_def
          GetEpisodeWithGreatestWatchedDate_def split: if_splits)
    with stale_pairs_mem(5)[of le b episode_match_key srv "episodes (db a)"] show ?thesis
      by (simp add: episode_result_def)
  qed
qed

lemma apply_phase_no_user:
  assumes "stale_rows a itemType srv = Inr updated" "updated \<noteq> []" "if_GetUserId client = Inl e"
  shows "synchronizeSingleUpdatedUserData now itemType srv client a =
           ([e], record_call (ApplyStarted srv itemType) a)"
  using assms
  by (simp add: synchronizeSingleUpdatedUserData_def Let_def stale_rows_record_call)

subsection \<open>What a cycle does to a watermark\<close>

text \<open>
  The fetch phase does not touch the \<open>state\<close> table. The apply worker of a server and item
  type leaves the tables of the items as they are and changes at most the watermark of its
  own server and item type, to the value it computes from its stale set.
\<close>

lemma InsertItems_state:
  "state (snd (InsertItems dflt srv itemType items d)) = state d"
  by (simp add: InsertItems_def InsertMovies_def InsertEpisodes_def split: sum.splits)

lemma RemoveItemsNotSeenSince_state:
  "state (snd (RemoveItemsNotSeenSince srv itemType since d)) = state d"
  by (simp add: RemoveItemsNotSeenSince_def RemoveMoviesNotSeenSince_def
      RemoveEpisodesNotSeenSince_def)

lemma fetch_worker_state:
  "state (db (snd (fetchUpdateFromJellyfin dflt start itemType srv client a))) = state (db a)"
proof -
  have i: "\<And>items d e d'. InsertItems dflt srv itemType items d = (e, d') \<Longrightarrow> state d' = state d"
    using InsertItems_state[of dflt srv itemType] by (metis snd_conv)
  have r: "\<And>d e d'. RemoveItemsNotSeenSince srv itemType start d = (e, d') \<Longrightarrow> state d' = state d"
    using RemoveItemsNotSeenSince_state[of srv itemType start] by (metis snd_conv)
  show ?thesis
    by (auto simp: fetchUpdateFromJellyfin_def Let_def db_record_call
        split: sum.splits prod.splits option.splits dest!: i r)
qed

lemma each_client_inv:
  assumes "\<And>srv client a. P a \<Longrightarrow> P (snd (worker srv client a))" and "P a"
  shows "P (snd (each_client worker cs a))"
  using assms(2)
proof (induction cs arbitrary: a)
  case Nil then show ?case by simp
next
  case (Cons c cs)
  obtain srv client where c: "c = (srv, client)" by (cases c)
  from Cons.prems have "P (snd (worker srv client a))" by (rule assms(1))
  then have "P (snd (each_client worker cs (snd (worker srv client a))))" by (rule Cons.IH)
  then show ?case unfolding c each_client_snd .
qed

lemma fetch_phase_state:
  "state (db (snd (fetchUpdatesFromJellyfin env itemType a))) = state (db a)"
  unfolding fetchUpdatesFromJellyfin_def
  by (rule each_client_inv[where P = "\<lambda>x. state (db x) = state (db a)"])
     (simp_all add: snd_error_list fetch_worker_state)


lemma lowest_in_range:
  assumes "stale_rows a itemType srv = Inr updated"
  shows "0 < Min (insert MaxInt64 (u_WatchedDate ` set updated))"
    and "Min (insert MaxInt64 (u_WatchedDate ` set updated)) \<le> MaxInt64"
proof -
  have "\<forall>x \<in> insert MaxInt64 (u_WatchedDate ` set updated). 0 < x"
    using stale_rows_positive[OF assms] by (auto simp: MaxInt64_def)
  then show "0 < Min (insert MaxInt64 (u_WatchedDate ` set updated))" by simp
  show "Min (insert MaxInt64 (u_WatchedDate ` set updated)) \<le> MaxInt64" by simp
qed

lemma apply_worker_effect:
  fixes now itemType srv client a
  defines "d' \<equiv> db (snd (synchronizeSingleUpdatedUserData now itemType srv client a))"
  shows "movies d' = movies (db a)" and "episodes d' = episodes (db a)"
    and "state d' k = state (db a) k \<or>
         (k = (srv, itemType) \<and>
          (\<exists>updated. stale_rows a itemType srv = Inr updated \<and>
             state d' k = Some (if updated = [] then Unix now
                                else Min (insert MaxInt64 (u_WatchedDate ` set updated)) - 1)))"
proof -
  let ?a = "record_call (ApplyStarted srv itemType) a"
  let ?R = "synchronizeSingleUpdatedUserData now itemType srv client a"
  let ?G = "movies (db (snd ?R)) = movies (db a) \<and> episodes (db (snd ?R)) = episodes (db a) \<and>
     (state (db (snd ?R)) k = state (db a) k \<or>
         (k = (srv, itemType) \<and>
          (\<exists>updated. stale_rows a itemType srv = Inr updated \<and>
             state (db (snd ?R)) k = Some (if updated = [] then Unix now
                                else Min (insert MaxInt64 (u_WatchedDate ` set updated)) - 1))))"
  have ?G
  proof (cases "stale_rows a itemType srv")
    case (Inl e)
    then show ?thesis
      by (simp add: synchronizeSingleUpdatedUserData_def Let_def stale_rows_record_call
          db_record_call)
  next
    case (Inr updated)
    show ?thesis
    proof (cases "updated = []")
      case True
      with Inr have e: "stale_rows a itemType srv = Inr []" by simp
      show ?thesis
        unfolding apply_phase_empty[OF e] using e
        by (auto simp: UpsertState_def db_record_call)
    next
      case ne: False
      show ?thesis
      proof (cases "if_GetUserId client")
        case (Inl e)
        show ?thesis
          unfolding apply_phase_no_user[OF Inr ne Inl] by (simp add: db_record_call)
      next
        case uid: (Inr userId)
        obtain lo enc errs a1 where
          f: "fold (update_item now srv client userId) updated (MaxInt64, False, [], ?a) =
                (lo, enc, errs, a1)"
          by (cases "fold (update_item now srv client userId) updated (MaxInt64, False, [], ?a)") auto
        note r = fold_update_item[OF f]
        have lo: "lo = Min (insert MaxInt64 (u_WatchedDate ` set updated))" using r by simp
        have keep: "state (db a1) = state (db a)" "movies (db a1) = movies (db a)"
          "episodes (db a1) = episodes (db a)"
          using r by (simp_all add: db_record_call)
        from lowest_in_range[OF Inr] have "0 < lo" "lo \<le> MaxInt64" unfolding lo by simp_all
        then have wr: "wrap64 (lo - 1) = lo - 1"
          by (intro wrap64_id) (simp_all add: MinInt64_def MaxInt64_def)
        have R: "?R = (if \<not> enc then
              (case UpsertState srv itemType (time_Unix (lo - 1)) (db a1) of
                 Inl err \<Rightarrow> (errs, a1)
               | Inr d \<Rightarrow> (errs, a1\<lparr>db := d\<rparr>))
            else (errs, a1))"
          using Inr ne uid f
          by (simp add: synchronizeSingleUpdatedUserData_def Let_def stale_rows_record_call wr)
        show ?thesis
          unfolding R using keep ne Inr
          by (auto simp: UpsertState_def Unix_time_Unix lo)
      qed
    qed
  qed
  then show "movies d' = movies (db a)" and "episodes d' = episodes (db a)"
    and "state d' k = state (db a) k \<or>
         (k = (srv, itemType) \<and>
          (\<exists>updated. stale_rows a itemType srv = Inr updated \<and>
             state d' k = Some (if updated = [] then Unix now
                                else Min (insert MaxInt64 (u_WatchedDate ` set updated)) - 1)))"
    unfolding d'_def by simp_all
qed

lemma stale_rows_tables:
  "movies (db a) = movies (db b) \<Longrightarrow> episodes (db a) = episodes (db b) \<Longrightarrow>
   stale_rows a itemType srv = stale_rows b itemType srv"
  by (simp add: stale_rows_def GetMoviesWithUpdatedUserData_def GetEpisodesWithUpdatedUserData_def)

lemma apply_phase_effect:
  "state (db (snd (synchronizeUpdatedUserData env itemType a))) k = state (db a) k \<or>
   (snd k = itemType \<and>
    (\<exists>updated. stale_rows a itemType (fst k) = Inr updated \<and>
       state (db (snd (synchronizeUpdatedUserData env itemType a))) k =
         Some (if updated = [] then Unix (now_apply env (fst k) itemType)
               else Min (insert MaxInt64 (u_WatchedDate ` set updated)) - 1)))"
proof -
  let ?P = "\<lambda>x::App. movies (db x) = movies (db a) \<and> episodes (db x) = episodes (db a) \<and>
     (state (db x) k = state (db a) k \<or>
      (snd k = itemType \<and>
       (\<exists>updated. stale_rows a itemType (fst k) = Inr updated \<and>
          state (db x) k =
            Some (if updated = [] then Unix (now_apply env (fst k) itemType)
                  else Min (insert MaxInt64 (u_WatchedDate ` set updated)) - 1))))"
  have "?P (snd (synchronizeUpdatedUserData env itemType a))"
    unfolding synchronizeUpdatedUserData_def
  proof (rule each_client_inv[where P = ?P])
    show "?P a" by simp
  next
    fix srv client and x :: App
    assume p: "?P x"
    let ?x' = "snd (synchronizeSingleUpdatedUserData (now_apply env srv itemType) itemType srv client x)"
    note w = apply_worker_effect(1,2)[of "now_apply env srv itemType" itemType srv client x]
      apply_worker_effect(3)[of "now_apply env srv itemType" itemType srv client x k]
    from p have st: "stale_rows x itemType srv = stale_rows a itemType srv"
      by (intro stale_rows_tables) simp_all
    from w(3) show "?P ?x'"
    proof
      assume "state (db ?x') k = state (db x) k"
      with p w(1,2) show ?thesis by simp
    next
      assume "k = (srv, itemType) \<and>
          (\<exists>updated. stale_rows x itemType srv = Inr updated \<and>
             state (db ?x') k = Some (if updated = [] then Unix (now_apply env srv itemType)
                                else Min (insert MaxInt64 (u_WatchedDate ` set updated)) - 1))"
      then obtain updated where u: "k = (srv, itemType)" "stale_rows x itemType srv = Inr updated"
        "state (db ?x') k = Some (if updated = [] then Unix (now_apply env srv itemType)
                                else Min (insert MaxInt64 (u_WatchedDate ` set updated)) - 1)"
        by blast
      from u(1) have fk: "fst k = srv" "snd k = itemType" by simp_all
      from u(2) st have "stale_rows a itemType (fst k) = Inr updated" by (simp add: fk)
      moreover from u(3) have "state (db ?x') k =
          Some (if updated = [] then Unix (now_apply env (fst k) itemType)
                else Min (insert MaxInt64 (u_WatchedDate ` set updated)) - 1)" by (simp add: fk)
      ultimately have "snd k = itemType \<and>
       (\<exists>updated. stale_rows a itemType (fst k) = Inr updated \<and>
          state (db ?x') k =
            Some (if updated = [] then Unix (now_apply env (fst k) itemType)
                  else Min (insert MaxInt64 (u_WatchedDate ` set updated)) - 1))"
        using fk by blast
      with p w(1,2) show ?thesis by simp
    qed
  qed
  then show ?thesis by simp
qed

lemma type_sync_state:
  fixes env itemType a
  defines "R \<equiv> (case fetchUpdatesFromJellyfin env itemType a of
                     (errs, a') \<Rightarrow> if errs \<noteq> [] then (errs, a')
                                  else synchronizeUpdatedUserData env itemType a')"
  shows "state (db (snd R)) k = state (db a) k \<or>
   (snd k = itemType \<and>
    (\<exists>updated. stale_rows (snd (fetchUpdatesFromJellyfin env itemType a)) itemType (fst k) =
                  Inr updated \<and>
       state (db (snd R)) k =
         Some (if updated = [] then Unix (now_apply env (fst k) itemType)
               else Min (insert MaxInt64 (u_WatchedDate ` set updated)) - 1)))"
proof -
  obtain errs a' where f: "fetchUpdatesFromJellyfin env itemType a = (errs, a')"
    by (cases "fetchUpdatesFromJellyfin env itemType a")
  from fetch_phase_state[of env itemType a] f have s: "state (db a') = state (db a)" by simp
  show ?thesis
  proof (cases "errs = []")
    case False
    with f s show ?thesis by (simp add: R_def)
  next
    case True
    with f have R: "R = synchronizeUpdatedUserData env itemType a'" by (simp add: R_def)
    from apply_phase_effect[of env itemType a' k] s f show ?thesis
      unfolding R by auto
  qed
qed

lemmas movies_sync_state = type_sync_state[where itemType = ItemMovie, folded syncMoviesWatchedState_def]
lemmas episodes_sync_state = type_sync_state[where itemType = ItemEpisode, folded syncEpisodesWatchedState_def]

lemma SyncOnce_db:
  "db (snd (SyncOnce env a)) =
     db (snd (syncEpisodesWatchedState env (snd (syncMoviesWatchedState env a))))"
  by (simp add: SyncOnce_def split: prod.splits)

text \<open>
  So a cycle leaves a watermark as it is stored or replaces it by the value the apply worker
  has to write; the value is not compared with the stored one.
\<close>

lemma cycle_watermark:
  "state (db (snd (SyncOnce env a))) (srv, itemType) = state (db a) (srv, itemType) \<or>
   (\<exists>v. watermark_to_write env a srv itemType = Some v \<and>
        state (db (snd (SyncOnce env a))) (srv, itemType) = Some v)"
proof -
  let ?k = "(srv, itemType)"
  let ?a1 = "snd (syncMoviesWatchedState env a)"
  note m = movies_sync_state[of env a ?k]
  note e = episodes_sync_state[of env ?a1 ?k]
  show ?thesis
  proof (cases "itemType = ItemMovie")
    case True
    with e types_differ have "state (db (snd (syncEpisodesWatchedState env ?a1))) ?k = state (db ?a1) ?k"
      by auto
    with m True show ?thesis
      by (auto simp: SyncOnce_db watermark_to_write_def fetched_def)
  next
    case False
    with m have s1: "state (db ?a1) ?k = state (db a) ?k" by auto
    show ?thesis
    proof (cases "itemType = ItemEpisode")
      case True
      with e s1 types_differ show ?thesis
        by (auto simp: SyncOnce_db watermark_to_write_def fetched_def)
    next
      case ne: False
      with e s1 show ?thesis by (auto simp: SyncOnce_db)
    qed
  qed
qed

lemma cycles_hd: "\<exists>as. cycles envs a = a # as"
  by (cases envs) simp_all

subsection \<open>Quiet cycles\<close>

lemma quiet_fetch:
  assumes "itemType = ''Movie'' \<or> itemType = ''Episode''" "0 < t"
  shows "\<exists>cs'. fetchUpdatesFromJellyfin (quiet_cycle t) itemType
     \<lparr> db = \<lparr> movies = [], episodes = [], changelog = cl, state = s \<rparr>,
       counter = c, syncIntervalMinutes = 30, fullSyncIntervalMinutes = 30, calls = cs \<rparr> =
   ([], \<lparr> db = \<lparr> movies = [], episodes = [], changelog = cl, state = s \<rparr>,
          counter = c, syncIntervalMinutes = 30, fullSyncIntervalMinutes = 30, calls = cs' \<rparr>)"
  using assms by (auto simp: quiet_cycle_def fetch_defs split: option.splits)

lemma quiet_apply:
  assumes "itemType = ''Movie'' \<or> itemType = ''Episode''" "0 < t"
  shows "\<exists>cs'. synchronizeUpdatedUserData (quiet_cycle t) itemType
     \<lparr> db = \<lparr> movies = [], episodes = [], changelog = cl, state = s \<rparr>,
       counter = c, syncIntervalMinutes = 30, fullSyncIntervalMinutes = 30, calls = cs \<rparr> =
   ([], \<lparr> db = \<lparr> movies = [], episodes = [], changelog = cl,
                 state = s((''dd'', itemType) \<mapsto> t, (''ez'', itemType) \<mapsto> t) \<rparr>,
          counter = c, syncIntervalMinutes = 30, fullSyncIntervalMinutes = 30, calls = cs' \<rparr>)"
  using assms by (auto simp: quiet_cycle_def apply_defs stale_no_movies stale_no_episodes)


lemma quiet_cycle_run:
  assumes "0 < t"
  shows "\<exists>cs'. SyncOnce (quiet_cycle t)
     \<lparr> db = \<lparr> movies = [], episodes = [], changelog = cl, state = s \<rparr>,
       counter = c, syncIntervalMinutes = 30, fullSyncIntervalMinutes = 30, calls = cs \<rparr> =
   ([], \<lparr> db = \<lparr> movies = [], episodes = [], changelog = cl,
                 state = s((''dd'', ''Movie'') \<mapsto> t, (''ez'', ''Movie'') \<mapsto> t,
                           (''dd'', ''Episode'') \<mapsto> t, (''ez'', ''Episode'') \<mapsto> t) \<rparr>,
          counter = wrap32 (c + 1), syncIntervalMinutes = 30, fullSyncIntervalMinutes = 30,
          calls = cs' \<rparr>)"
proof -
  obtain c1 where f1: "fetchUpdatesFromJellyfin (quiet_cycle t) ''Movie''
     \<lparr> db = \<lparr> movies = [], episodes = [], changelog = cl, state = s \<rparr>,
       counter = c, syncIntervalMinutes = 30, fullSyncIntervalMinutes = 30, calls = cs \<rparr> =
   ([], \<lparr> db = \<lparr> movies = [], episodes = [], changelog = cl, state = s \<rparr>,
          counter = c, syncIntervalMinutes = 30, fullSyncIntervalMinutes = 30, calls = c1 \<rparr>)"
    using quiet_fetch[of "''Movie''" t cl s c cs] assms by auto
  obtain c2 where a1: "synchronizeUpdatedUserData (quiet_cycle t) ''Movie''
     \<lparr> db = \<lparr> movies = [], episodes = [], changelog = cl, state = s \<rparr>,
       counter = c, syncIntervalMinutes = 30, fullSyncIntervalMinutes = 30, calls = c1 \<rparr> =
   ([], \<lparr> db = \<lparr> movies = [], episodes = [], changelog = cl,
                 state = s((''dd'', ''Movie'') \<mapsto> t, (''ez'', ''Movie'') \<mapsto> t) \<rparr>,
          counter = c, syncIntervalMinutes = 30, fullSyncIntervalMinutes = 30, calls = c2 \<rparr>)"
    using quiet_apply[of "''Movie''" t cl s c c1] assms by auto
  let ?s1 = "s((''dd'', ''Movie'') \<mapsto> t, (''ez'', ''Movie'') \<mapsto> t)"
  obtain c3 where f2: "fetchUpdatesFromJellyfin (quiet_cycle t) ''Episode''
     \<lparr> db = \<lparr> movies = [], episodes = [], changelog = cl, state = ?s1 \<rparr>,
       counter = c, syncIntervalMinutes = 30, fullSyncIntervalMinutes = 30, calls = c2 \<rparr> =
   ([], \<lparr> db = \<lparr> movies = [], episodes = [], changelog = cl, state = ?s1 \<rparr>,
          counter = c, syncIntervalMinutes = 30, fullSyncIntervalMinutes = 30, calls = c3 \<rparr>)"
    using quiet_fetch[of "''Episode''" t cl ?s1 c c2] assms by auto
  obtain c4 where a2: "synchronizeUpdatedUserData (quiet_cycle t) ''Episode''
     \<lparr> db = \<lparr> movies = [], episodes = [], changelog = cl, state = ?s1 \<rparr>,
       counter = c, syncIntervalMinutes = 30, fullSyncIntervalMinutes = 30, calls = c3 \<rparr> =
   ([], \<lparr> db = \<lparr> movies = [], episodes = [], changelog = cl,
                 state = ?s1((''dd'', ''Episode'') \<mapsto> t, (''ez'', ''Episode'') \<mapsto> t) \<rparr>,
          counter = c, syncIntervalMinutes = 30, fullSyncIntervalMinutes = 30, calls = c4 \<rparr>)"
    using quiet_apply[of "''Episode''" t cl ?s1 c c3] assms by auto
  show ?thesis
    by (simp add: SyncOnce_def syncMoviesWatchedState_def syncEpisodesWatchedState_def
        ItemMovie_def ItemEpisode_def f1 a1 f2 a2)
qed

lemma quiet_to_write:
  assumes "0 < t"
  shows "watermark_to_write (quiet_cycle t)
     \<lparr> db = \<lparr> movies = [], episodes = [], changelog = cl, state = s \<rparr>,
       counter = c, syncIntervalMinutes = 30, fullSyncIntervalMinutes = 30, calls = cs \<rparr>
     ''dd'' ''Movie'' = Some t"
proof -
  obtain c1 where f1: "fetchUpdatesFromJellyfin (quiet_cycle t) ''Movie''
     \<lparr> db = \<lparr> movies = [], episodes = [], changelog = cl, state = s \<rparr>,
       counter = c, syncIntervalMinutes = 30, fullSyncIntervalMinutes = 30, calls = cs \<rparr> =
   ([], \<lparr> db = \<lparr> movies = [], episodes = [], changelog = cl, state = s \<rparr>,
          counter = c, syncIntervalMinutes = 30, fullSyncIntervalMinutes = 30, calls = c1 \<rparr>)"
    using quiet_fetch[of "''Movie''" t cl s c cs] assms by auto
  have "now_apply (quiet_cycle t) ''dd'' ''Movie'' = time_Unix t" by (simp add: quiet_cycle_def)
  then show ?thesis
    by (simp add: watermark_to_write_def fetched_def ItemMovie_def f1 stale_no_movies
        Unix_time_Unix)
qed

subsection \<open>Sequences of cycles\<close>

lemma cycles_non_decreasing:
  assumes "state (db a) (srv, itemType) = Some w" and "not_lowering envs a srv itemType"
  shows "\<exists>ws. map (\<lambda>a'. state (db a') (srv, itemType)) (cycles envs a) = map Some ws \<and> sorted ws"
  using assms
proof (induction envs arbitrary: a w)
  case Nil
  then have "map (\<lambda>a'. state (db a') (srv, itemType)) (cycles [] a) = map Some [w] \<and> sorted [w]"
    by simp
  then show ?case by blast
next
  case (Cons env envs)
  let ?a1 = "snd (SyncOnce env a)"
  from Cons.prems(2) have nl: "not_lowering envs ?a1 srv itemType"
    and hd: "\<And>v. watermark_to_write env a srv itemType = Some v \<Longrightarrow> w \<le> v"
    using Cons.prems(1) by simp_all
  from cycle_watermark[of env a srv itemType] Cons.prems(1) hd
  obtain w1 where w1: "state (db ?a1) (srv, itemType) = Some w1" "w \<le> w1" by auto
  from Cons.IH[OF w1(1) nl] obtain ws where
    ws: "map (\<lambda>a'. state (db a') (srv, itemType)) (cycles envs ?a1) = map Some ws" "sorted ws"
    by blast
  from cycles_hd[of envs ?a1] obtain as where as: "cycles envs ?a1 = ?a1 # as" by blast
  with ws(1) w1(1) obtain rest where rest: "ws = w1 # rest" by (cases ws) auto
  with ws(2) w1(2) have "sorted (w # ws)" by auto
  moreover have "map (\<lambda>a'. state (db a') (srv, itemType)) (cycles (env # envs) a) = map Some (w # ws)"
    using ws(1) Cons.prems(1) by simp
  ultimately show ?case by blast
qed

text \<open>
  C4, as the code has it, for a server and item type with a stored watermark \<open>w\<close>. A cycle,
  whether it returns errors or not, leaves the watermark as stored or replaces it by the
  value its apply worker has to write: the reading of the clock when the stale set is empty,
  the least \<open>watched_date\<close> of the stale set minus 1 otherwise; the value is not compared
  with \<open>w\<close>. Over any sequence of cycles in each of which that value is not below the
  watermark stored when the cycle starts, the watermarks stored at the start and after each
  of the cycles are non-decreasing.
\<close>

theorem watermark_over_cycles:
  assumes "state (db a) (srv, itemType) = Some w"
  shows "(state (db (snd (SyncOnce env a))) (srv, itemType) = Some w \<or>
          (\<exists>v. watermark_to_write env a srv itemType = Some v \<and>
               state (db (snd (SyncOnce env a))) (srv, itemType) = Some v)) \<and>
         (not_lowering envs a srv itemType \<longrightarrow>
            (\<exists>ws. map (\<lambda>a'. state (db a') (srv, itemType)) (cycles envs a) = map Some ws \<and>
                  sorted ws))"
proof
  from cycle_watermark[of env a srv itemType] assms
  show "state (db (snd (SyncOnce env a))) (srv, itemType) = Some w \<or>
          (\<exists>v. watermark_to_write env a srv itemType = Some v \<and>
               state (db (snd (SyncOnce env a))) (srv, itemType) = Some v)"
    by simp
next
  show "not_lowering envs a srv itemType \<longrightarrow>
            (\<exists>ws. map (\<lambda>a'. state (db a') (srv, itemType)) (cycles envs a) = map Some ws \<and>
                  sorted ws)"
    using cycles_non_decreasing[OF assms] by blast
qed

theorem watermark_over_cycles_witness:
  "state (db (snd (SyncOnce (quiet_cycle 900) every_cycle_full))) (''dd'', ItemMovie) = Some 900 \<and>
   not_lowering [quiet_cycle 1000, quiet_cycle 2000]
     (snd (SyncOnce (quiet_cycle 900) every_cycle_full)) ''dd'' ItemMovie \<and>
   map (\<lambda>a'. state (db a') (''dd'', ItemMovie))
     (cycles [quiet_cycle 1000, quiet_cycle 2000]
        (snd (SyncOnce (quiet_cycle 900) every_cycle_full))) = [Some 900, Some 1000, Some 2000] \<and>
   (\<exists>ws. map (\<lambda>a'. state (db a') (''dd'', ItemMovie))
          (cycles [quiet_cycle 1000, quiet_cycle 2000]
             (snd (SyncOnce (quiet_cycle 900) every_cycle_full))) = map Some ws \<and> sorted ws)"
proof -
  obtain c0 where a0: "SyncOnce (quiet_cycle 900) every_cycle_full =
     ([], \<lparr> db = \<lparr> movies = [], episodes = [], changelog = [],
                   state = [(''dd'', ''Movie'') \<mapsto> 900, (''ez'', ''Movie'') \<mapsto> 900,
                            (''dd'', ''Episode'') \<mapsto> 900, (''ez'', ''Episode'') \<mapsto> 900] \<rparr>,
            counter = 1, syncIntervalMinutes = 30, fullSyncIntervalMinutes = 30, calls = c0 \<rparr>)"
    using quiet_cycle_run[of 900 "[]" Map.empty 0 "[]"]
    by (auto simp: every_cycle_full_def empty_db_def wrap32_def)
  let ?s0 = "[(''dd'', ''Movie'') \<mapsto> 900, (''ez'', ''Movie'') \<mapsto> 900,
              (''dd'', ''Episode'') \<mapsto> 900, (''ez'', ''Episode'') \<mapsto> (900::int)]"
  let ?a0 = "\<lparr> db = \<lparr> movies = [], episodes = [], changelog = [], state = ?s0 \<rparr>,
            counter = 1, syncIntervalMinutes = 30, fullSyncIntervalMinutes = 30, calls = c0 \<rparr>"
  obtain c1 where a1: "SyncOnce (quiet_cycle 1000) ?a0 =
     ([], \<lparr> db = \<lparr> movies = [], episodes = [], changelog = [],
                   state = [(''dd'', ''Movie'') \<mapsto> 1000, (''ez'', ''Movie'') \<mapsto> 1000,
                            (''dd'', ''Episode'') \<mapsto> 1000, (''ez'', ''Episode'') \<mapsto> (1000::int)] \<rparr>,
            counter = 2, syncIntervalMinutes = 30, fullSyncIntervalMinutes = 30, calls = c1 \<rparr>)"
    using quiet_cycle_run[of 1000 "[]" ?s0 1 c0] by (auto simp: wrap32_def)
  let ?s1 = "[(''dd'', ''Movie'') \<mapsto> 1000, (''ez'', ''Movie'') \<mapsto> 1000,
                            (''dd'', ''Episode'') \<mapsto> 1000, (''ez'', ''Episode'') \<mapsto> (1000::int)]"
  let ?a1 = "\<lparr> db = \<lparr> movies = [], episodes = [], changelog = [], state = ?s1 \<rparr>,
            counter = 2, syncIntervalMinutes = 30, fullSyncIntervalMinutes = 30, calls = c1 \<rparr>"
  obtain c2 where a2: "SyncOnce (quiet_cycle 2000) ?a1 =
     ([], \<lparr> db = \<lparr> movies = [], episodes = [], changelog = [],
                   state = [(''dd'', ''Movie'') \<mapsto> 2000, (''ez'', ''Movie'') \<mapsto> 2000,
                            (''dd'', ''Episode'') \<mapsto> 2000, (''ez'', ''Episode'') \<mapsto> (2000::int)] \<rparr>,
            counter = 3, syncIntervalMinutes = 30, fullSyncIntervalMinutes = 30, calls = c2 \<rparr>)"
    using quiet_cycle_run[of 2000 "[]" ?s1 2 c1] by (auto simp: wrap32_def)
  have w: "state (db (snd (SyncOnce (quiet_cycle 900) every_cycle_full))) (''dd'', ItemMovie) = Some 900"
    unfolding a0 by (simp add: ItemMovie_def)
  have nl: "not_lowering [quiet_cycle 1000, quiet_cycle 2000]
     (snd (SyncOnce (quiet_cycle 900) every_cycle_full)) ''dd'' ItemMovie"
    unfolding a0 by (simp add: ItemMovie_def a1 quiet_to_write)
  have tr: "map (\<lambda>a'. state (db a') (''dd'', ItemMovie))
     (cycles [quiet_cycle 1000, quiet_cycle 2000]
        (snd (SyncOnce (quiet_cycle 900) every_cycle_full))) = [Some 900, Some 1000, Some 2000]"
    unfolding a0 by (simp add: ItemMovie_def a1 a2)
  from watermark_over_cycles[OF w, of "quiet_cycle 1000" "[quiet_cycle 1000, quiet_cycle 2000]"]
    w nl tr show ?thesis by blast
qed

text \<open>
  C4 as stated fails, since the value is written without a comparison. On the store the
  migration creates, both servers answer and list nothing, and both cycles return no error.
  The apply worker stores the reading of the wall clock, which is 1000 in the first cycle and
  has been set back to 900 by the second: the watermark of \<open>dd\<close> goes from 1000 to 900.
\<close>

theorem watermark_decreases_counterexample:
  "fst (SyncOnce (quiet_cycle 1000) every_cycle_full) = [] \<and>
   state (db (snd (SyncOnce (quiet_cycle 1000) every_cycle_full))) (''dd'', ItemMovie) = Some 1000 \<and>
   fst (SyncOnce (quiet_cycle 900) (snd (SyncOnce (quiet_cycle 1000) every_cycle_full))) = [] \<and>
   state (db (snd (SyncOnce (quiet_cycle 900) (snd (SyncOnce (quiet_cycle 1000) every_cycle_full)))))
     (''dd'', ItemMovie) = Some 900"
proof -
  obtain c0 where a0: "SyncOnce (quiet_cycle 1000) every_cycle_full =
     ([], \<lparr> db = \<lparr> movies = [], episodes = [], changelog = [],
                   state = [(''dd'', ''Movie'') \<mapsto> 1000, (''ez'', ''Movie'') \<mapsto> 1000,
                            (''dd'', ''Episode'') \<mapsto> 1000, (''ez'', ''Episode'') \<mapsto> 1000] \<rparr>,
            counter = 1, syncIntervalMinutes = 30, fullSyncIntervalMinutes = 30, calls = c0 \<rparr>)"
    using quiet_cycle_run[of 1000 "[]" Map.empty 0 "[]"]
    by (auto simp: every_cycle_full_def empty_db_def wrap32_def)
  let ?s0 = "[(''dd'', ''Movie'') \<mapsto> 1000, (''ez'', ''Movie'') \<mapsto> 1000,
              (''dd'', ''Episode'') \<mapsto> 1000, (''ez'', ''Episode'') \<mapsto> (1000::int)]"
  obtain c1 where a1: "SyncOnce (quiet_cycle 900)
       \<lparr> db = \<lparr> movies = [], episodes = [], changelog = [], state = ?s0 \<rparr>,
         counter = 1, syncIntervalMinutes = 30, fullSyncIntervalMinutes = 30, calls = c0 \<rparr> =
     ([], \<lparr> db = \<lparr> movies = [], episodes = [], changelog = [],
                   state = [(''dd'', ''Movie'') \<mapsto> 900, (''ez'', ''Movie'') \<mapsto> 900,
                            (''dd'', ''Episode'') \<mapsto> 900, (''ez'', ''Episode'') \<mapsto> (900::int)] \<rparr>,
            counter = 2, syncIntervalMinutes = 30, fullSyncIntervalMinutes = 30, calls = c1 \<rparr>)"
    using quiet_cycle_run[of 900 "[]" ?s0 1 c0] by (auto simp: wrap32_def)
  show ?thesis
    unfolding a0 by (simp add: a1 ItemMovie_def)
qed

section \<open>Fetch errors within a cycle\<close>

lemma fetch_calls:
  "\<exists>xs. calls (snd (fetchUpdateFromJellyfin dflt start itemType srv client a)) =
          calls a @ FetchStarted srv itemType # xs \<and> (\<forall>c\<in>set xs. \<forall>t. \<not> apply_started t c)"
  by (auto simp: fetchUpdateFromJellyfin_def Let_def record_call_def
      split: sum.splits prod.splits option.splits)

lemma update_item_calls:
  "calls (snd (snd (snd (fold (update_item now srv client userId) items (lo, enc, errs, a))))) =
   calls a @ map (\<lambda>item. UserDataPosted srv (u_LocalID item)) items"
proof (induction items arbitrary: lo enc errs a)
  case Nil
  then show ?case by simp
next
  case (Cons item items)
  obtain lo1 enc1 errs1 a1 where
    step: "update_item now srv client userId item (lo, enc, errs, a) = (lo1, enc1, errs1, a1)"
    by (cases "update_item now srv client userId item (lo, enc, errs, a)") auto
  then have "calls a1 = calls a @ [UserDataPosted srv (u_LocalID item)]"
    by (auto simp: update_item_def Let_def record_call_def split: option.splits)
  with Cons.IH[of lo1 enc1 errs1 a1] show ?case by (simp add: step)
qed

lemma apply_calls:
  "\<exists>xs. calls (snd (synchronizeSingleUpdatedUserData now itemType srv client a)) =
          calls a @ ApplyStarted srv itemType # xs \<and> (\<forall>c\<in>set xs. \<forall>t. \<not> apply_started t c)"
proof -
  let ?a = "record_call (ApplyStarted srv itemType) a"
  have c: "calls ?a = calls a @ [ApplyStarted srv itemType]" by (simp add: record_call_def)
  have f: "\<And>userId updated lo enc errs a1.
      fold (update_item now srv client userId) updated (MaxInt64, False, [], ?a) = (lo, enc, errs, a1) \<Longrightarrow>
      calls a1 = calls ?a @ map (\<lambda>item. UserDataPosted srv (u_LocalID item)) updated"
  proof -
    fix userId updated lo enc errs a1
    assume "fold (update_item now srv client userId) updated (MaxInt64, False, [], ?a) = (lo, enc, errs, a1)"
    with update_item_calls[of now srv client userId updated MaxInt64 False "[]" ?a]
    show "calls a1 = calls ?a @ map (\<lambda>item. UserDataPosted srv (u_LocalID item)) updated"
      by simp
  qed
  show ?thesis
    unfolding synchronizeSingleUpdatedUserData_def Let_def
    by (auto simp: c dest!: f split: sum.splits prod.splits if_splits)
qed

lemma each_client_filter:
  assumes "\<And>srv client a. filter P (calls (snd (worker srv client a))) = filter P (calls a)"
  shows "filter P (calls (snd (each_client worker cs a))) = filter P (calls a)"
proof (induction cs arbitrary: a)
  case Nil
  then show ?case by simp
next
  case (Cons sc cs)
  obtain srv client where sc: "sc = (srv, client)" by (cases sc)
  show ?case
    unfolding sc each_client_snd
    using Cons.IH[of "snd (worker srv client a)"] assms[of srv client a] by simp
qed

lemma each_client_grows:
  assumes "\<And>srv client a. set (calls a) \<subseteq> set (calls (snd (worker srv client a)))"
  shows "set (calls a) \<subseteq> set (calls (snd (each_client worker cs a)))"
proof (induction cs arbitrary: a)
  case Nil
  then show ?case by simp
next
  case (Cons sc cs)
  obtain srv client where sc: "sc = (srv, client)" by (cases sc)
  show ?case
    unfolding sc each_client_snd
    using Cons.IH[of "snd (worker srv client a)"] assms by blast
qed

lemma each_client_all:
  assumes g: "\<And>srv client a. set (calls a) \<subseteq> set (calls (snd (worker srv client a)))"
    and e: "\<And>srv client a. ev srv \<in> set (calls (snd (worker srv client a)))"
    and m: "(srv, client) \<in> set cs"
  shows "ev srv \<in> set (calls (snd (each_client worker cs a)))"
  using m
proof (induction cs arbitrary: a)
  case Nil
  then show ?case by simp
next
  case (Cons sc cs)
  obtain srv' client' where sc: "sc = (srv', client')" by (cases sc)
  show ?case
  proof (cases "(srv, client) = sc")
    case True
    then have "ev srv \<in> set (calls (snd (worker srv' client' a)))" using e sc by auto
    with each_client_grows[of worker "snd (worker srv' client' a)" cs, OF g]
    show ?thesis unfolding sc each_client_snd by blast
  next
    case False
    with Cons.prems have "(srv, client) \<in> set cs" by auto
    from Cons.IH[OF this, of "snd (worker srv' client' a)"] show ?thesis
      unfolding sc each_client_snd .
  qed
qed


lemma fetch_phase_calls:
  "set (calls a) \<subseteq> set (calls (snd (fetchUpdatesFromJellyfin env itemType a)))"
  "(srv, client) \<in> set (clients env) \<Longrightarrow>
     FetchStarted srv itemType \<in> set (calls (snd (fetchUpdatesFromJellyfin env itemType a)))"
  "filter (apply_started t) (calls (snd (fetchUpdatesFromJellyfin env itemType a))) =
     filter (apply_started t) (calls a)"
proof -
  let ?w = "\<lambda>srv client a. error_list
          (fetchUpdateFromJellyfin (last_seen_default env) (now_fetch env srv itemType) itemType
             srv client a)"
  have g: "\<And>srv client a. set (calls a) \<subseteq> set (calls (snd (?w srv client a)))"
  proof -
    fix srv client a
    from fetch_calls[of "last_seen_default env" "now_fetch env srv itemType" itemType srv client a]
    show "set (calls a) \<subseteq> set (calls (snd (?w srv client a)))"
      unfolding snd_error_list by auto
  qed
  have e: "\<And>srv client a. FetchStarted srv itemType \<in> set (calls (snd (?w srv client a)))"
  proof -
    fix srv client a
    from fetch_calls[of "last_seen_default env" "now_fetch env srv itemType" itemType srv client a]
    show "FetchStarted srv itemType \<in> set (calls (snd (?w srv client a)))"
      unfolding snd_error_list by auto
  qed
  have f: "\<And>srv client a. filter (apply_started t) (calls (snd (?w srv client a))) =
      filter (apply_started t) (calls a)"
  proof -
    fix srv client a
    from fetch_calls[of "last_seen_default env" "now_fetch env srv itemType" itemType srv client a]
    obtain xs where c: "calls (snd (?w srv client a)) = calls a @ FetchStarted srv itemType # xs"
      and n: "\<forall>c\<in>set xs. \<forall>t. \<not> apply_started t c"
      unfolding snd_error_list by blast
    from n have "filter (apply_started t) xs = []" by (simp add: filter_empty_conv)
    then show "filter (apply_started t) (calls (snd (?w srv client a))) =
      filter (apply_started t) (calls a)"
      unfolding c by simp
  qed
  show "set (calls a) \<subseteq> set (calls (snd (fetchUpdatesFromJellyfin env itemType a)))"
    unfolding fetchUpdatesFromJellyfin_def by (rule each_client_grows) (rule g)
  show "(srv, client) \<in> set (clients env) \<Longrightarrow>
     FetchStarted srv itemType \<in> set (calls (snd (fetchUpdatesFromJellyfin env itemType a)))"
    unfolding fetchUpdatesFromJellyfin_def
    by (rule each_client_all[of ?w "\<lambda>srv. FetchStarted srv itemType"]) (rule g, rule e, assumption)
  show "filter (apply_started t) (calls (snd (fetchUpdatesFromJellyfin env itemType a))) =
     filter (apply_started t) (calls a)"
    unfolding fetchUpdatesFromJellyfin_def by (rule each_client_filter) (rule f)
qed

lemma apply_phase_calls:
  "set (calls a) \<subseteq> set (calls (snd (synchronizeUpdatedUserData env itemType a)))"
  "(srv, client) \<in> set (clients env) \<Longrightarrow>
     ApplyStarted srv itemType \<in> set (calls (snd (synchronizeUpdatedUserData env itemType a)))"
  "t \<noteq> itemType \<Longrightarrow>
     filter (apply_started t) (calls (snd (synchronizeUpdatedUserData env itemType a))) =
     filter (apply_started t) (calls a)"
proof -
  let ?w = "\<lambda>srv client a. synchronizeSingleUpdatedUserData (now_apply env srv itemType) itemType
          srv client a"
  have g: "\<And>srv client a. set (calls a) \<subseteq> set (calls (snd (?w srv client a)))"
  proof -
    fix srv client a
    from apply_calls[of "now_apply env srv itemType" itemType srv client a]
    show "set (calls a) \<subseteq> set (calls (snd (?w srv client a)))" by auto
  qed
  have e: "\<And>srv client a. ApplyStarted srv itemType \<in> set (calls (snd (?w srv client a)))"
  proof -
    fix srv client a
    from apply_calls[of "now_apply env srv itemType" itemType srv client a]
    show "ApplyStarted srv itemType \<in> set (calls (snd (?w srv client a)))" by auto
  qed
  have f: "\<And>srv client a. t \<noteq> itemType \<Longrightarrow>
      filter (apply_started t) (calls (snd (?w srv client a))) = filter (apply_started t) (calls a)"
  proof -
    fix srv client a
    assume d: "t \<noteq> itemType"
    from apply_calls[of "now_apply env srv itemType" itemType srv client a]
    obtain xs where c: "calls (snd (?w srv client a)) = calls a @ ApplyStarted srv itemType # xs"
      and n: "\<forall>c\<in>set xs. \<forall>t. \<not> apply_started t c"
      by blast
    from n have "filter (apply_started t) xs = []" by (simp add: filter_empty_conv)
    with d show "filter (apply_started t) (calls (snd (?w srv client a))) =
      filter (apply_started t) (calls a)"
      unfolding c by auto
  qed
  show "set (calls a) \<subseteq> set (calls (snd (synchronizeUpdatedUserData env itemType a)))"
    unfolding synchronizeUpdatedUserData_def by (rule each_client_grows) (rule g)
  show "(srv, client) \<in> set (clients env) \<Longrightarrow>
     ApplyStarted srv itemType \<in> set (calls (snd (synchronizeUpdatedUserData env itemType a)))"
    unfolding synchronizeUpdatedUserData_def
    by (rule each_client_all[of ?w "\<lambda>srv. ApplyStarted srv itemType"]) (rule g, rule e, assumption)
  show "t \<noteq> itemType \<Longrightarrow>
     filter (apply_started t) (calls (snd (synchronizeUpdatedUserData env itemType a))) =
     filter (apply_started t) (calls a)"
    unfolding synchronizeUpdatedUserData_def by (rule each_client_filter) (rule f)
qed


lemma type_sync:
  fixes env itemType a
  defines "F \<equiv> fetchUpdatesFromJellyfin env itemType a"
  defines "R \<equiv> (case fetchUpdatesFromJellyfin env itemType a of
                     (errs, a') \<Rightarrow> if errs \<noteq> [] then (errs, a')
                                  else synchronizeUpdatedUserData env itemType a')"
  shows "set (calls a) \<subseteq> set (calls (snd R))"
    and "(srv, client) \<in> set (clients env) \<Longrightarrow> FetchStarted srv itemType \<in> set (calls (snd R))"
    and "fst F \<noteq> [] \<Longrightarrow> fst R \<noteq> [] \<and>
           filter (apply_started itemType) (calls (snd R)) = filter (apply_started itemType) (calls a)"
    and "fst F = [] \<Longrightarrow> (srv, client) \<in> set (clients env) \<Longrightarrow>
           ApplyStarted srv itemType \<in> set (calls (snd R))"
    and "t \<noteq> itemType \<Longrightarrow>
           filter (apply_started t) (calls (snd R)) = filter (apply_started t) (calls a)"
proof -
  have R: "R = (if fst F \<noteq> [] then F else synchronizeUpdatedUserData env itemType (snd F))"
    unfolding R_def F_def by (simp split: prod.splits)
  note fp = fetch_phase_calls[where a = a and env = env and itemType = itemType, folded F_def]
  note ap = apply_phase_calls[where a = "snd F" and env = env and itemType = itemType]
  show "set (calls a) \<subseteq> set (calls (snd R))"
    unfolding R using fp(1) ap(1) by auto
  show "(srv, client) \<in> set (clients env) \<Longrightarrow> FetchStarted srv itemType \<in> set (calls (snd R))"
    unfolding R using fp(2)[where srv = srv and client = client] ap(1) by auto
  show "fst F \<noteq> [] \<Longrightarrow> fst R \<noteq> [] \<and>
           filter (apply_started itemType) (calls (snd R)) = filter (apply_started itemType) (calls a)"
    unfolding R using fp(3)[where t = itemType] by simp
  show "fst F = [] \<Longrightarrow> (srv, client) \<in> set (clients env) \<Longrightarrow>
           ApplyStarted srv itemType \<in> set (calls (snd R))"
    unfolding R using ap(2)[where srv = srv and client = client] by simp
  show "t \<noteq> itemType \<Longrightarrow>
           filter (apply_started t) (calls (snd R)) = filter (apply_started t) (calls a)"
    unfolding R using fp(3)[where t = t] ap(3)[where t = t] by simp
qed

lemmas movies_sync = type_sync[where itemType = ItemMovie, folded syncMoviesWatchedState_def]
lemmas episodes_sync = type_sync[where itemType = ItemEpisode, folded syncEpisodesWatchedState_def]

lemma SyncOnce_parts:
  "fst (SyncOnce env a) =
     fst (syncMoviesWatchedState env a) @
     fst (syncEpisodesWatchedState env (snd (syncMoviesWatchedState env a)))"
  "calls (snd (SyncOnce env a)) =
     calls (snd (syncEpisodesWatchedState env (snd (syncMoviesWatchedState env a))))"
  by (simp_all add: SyncOnce_def split: prod.splits)

text \<open>
  C7, as the code has it. In a cycle the fetch worker of every server is entered for movies
  and for episodes, whatever the fetches of other servers or of the other item type return.
  If the fetch phase of an item type returns an error, the cycle returns an error and the
  apply phase of that item type is not entered for any server; if it returns none, the
  apply phase of that type is entered for every server. The item type that comes second is
  processed in either case.
\<close>

theorem fetch_errors_in_cycle:
  "(\<forall>(srv, client)\<in>set (clients env).
      FetchStarted srv ItemMovie \<in> set (calls (snd (SyncOnce env a))) \<and>
      FetchStarted srv ItemEpisode \<in> set (calls (snd (SyncOnce env a)))) \<and>
   (fst (fetchUpdatesFromJellyfin env ItemMovie a) \<noteq> [] \<longrightarrow>
      fst (SyncOnce env a) \<noteq> [] \<and>
      filter (apply_started ItemMovie) (calls (snd (SyncOnce env a))) =
        filter (apply_started ItemMovie) (calls a)) \<and>
   (fst (fetchUpdatesFromJellyfin env ItemMovie a) = [] \<longrightarrow>
      (\<forall>(srv, client)\<in>set (clients env).
         ApplyStarted srv ItemMovie \<in> set (calls (snd (SyncOnce env a))))) \<and>
   (fst (fetchUpdatesFromJellyfin env ItemEpisode (snd (syncMoviesWatchedState env a))) \<noteq> [] \<longrightarrow>
      fst (SyncOnce env a) \<noteq> [] \<and>
      filter (apply_started ItemEpisode) (calls (snd (SyncOnce env a))) =
        filter (apply_started ItemEpisode) (calls a)) \<and>
   (fst (fetchUpdatesFromJellyfin env ItemEpisode (snd (syncMoviesWatchedState env a))) = [] \<longrightarrow>
      (\<forall>(srv, client)\<in>set (clients env).
         ApplyStarted srv ItemEpisode \<in> set (calls (snd (SyncOnce env a)))))"
proof -
  let ?a1 = "snd (syncMoviesWatchedState env a)"
  note m = movies_sync[where a = a and env = env]
  note e = episodes_sync[where a = ?a1 and env = env]
  have d: "ItemMovie \<noteq> ItemEpisode" "ItemEpisode \<noteq> ItemMovie" using types_differ by auto
  show ?thesis
  proof (intro conjI ballI impI)
    fix x assume x: "x \<in> set (clients env)"
    obtain srv client where sc: "x = (srv, client)" by (cases x)
    from m(2)[where srv = srv and client = client] e(1) x sc
    have 1: "FetchStarted srv ItemMovie \<in> set (calls (snd (SyncOnce env a)))"
      unfolding SyncOnce_parts by auto
    from e(2)[where srv = srv and client = client] x sc
    have 2: "FetchStarted srv ItemEpisode \<in> set (calls (snd (SyncOnce env a)))"
      unfolding SyncOnce_parts by auto
    from 1 2 show "case x of (srv, client) \<Rightarrow>
      FetchStarted srv ItemMovie \<in> set (calls (snd (SyncOnce env a))) \<and>
      FetchStarted srv ItemEpisode \<in> set (calls (snd (SyncOnce env a)))"
      unfolding sc by simp
  next
    assume f: "fst (fetchUpdatesFromJellyfin env ItemMovie a) \<noteq> []"
    from m(3)[OF f] show "fst (SyncOnce env a) \<noteq> []" unfolding SyncOnce_parts by simp
    from m(3)[OF f] e(5)[OF d(1)]
    show "filter (apply_started ItemMovie) (calls (snd (SyncOnce env a))) =
        filter (apply_started ItemMovie) (calls a)"
      unfolding SyncOnce_parts by simp
  next
    fix x assume f: "fst (fetchUpdatesFromJellyfin env ItemMovie a) = []"
      and x: "x \<in> set (clients env)"
    obtain srv client where sc: "x = (srv, client)" by (cases x)
    from m(4)[OF f, where srv = srv and client = client] e(1) x sc
    show "case x of (srv, client) \<Rightarrow>
        ApplyStarted srv ItemMovie \<in> set (calls (snd (SyncOnce env a)))"
      unfolding SyncOnce_parts sc by auto
  next
    assume f: "fst (fetchUpdatesFromJellyfin env ItemEpisode ?a1) \<noteq> []"
    from e(3)[OF f] show "fst (SyncOnce env a) \<noteq> []" unfolding SyncOnce_parts by simp
    from e(3)[OF f] m(5)[OF d(2)]
    show "filter (apply_started ItemEpisode) (calls (snd (SyncOnce env a))) =
        filter (apply_started ItemEpisode) (calls a)"
      unfolding SyncOnce_parts by simp
  next
    fix x assume f: "fst (fetchUpdatesFromJellyfin env ItemEpisode ?a1) = []"
      and x: "x \<in> set (clients env)"
    obtain srv client where sc: "x = (srv, client)" by (cases x)
    from e(4)[OF f, where srv = srv and client = client] x sc
    show "case x of (srv, client) \<Rightarrow>
        ApplyStarted srv ItemEpisode \<in> set (calls (snd (SyncOnce env a)))"
      unfolding SyncOnce_parts sc by auto
  qed
qed

theorem fetch_errors_in_cycle_witness:
  "fst (fetchUpdatesFromJellyfin outage ItemMovie (app_on empty_db)) \<noteq> [] \<and>
   fst (SyncOnce outage (app_on empty_db)) \<noteq> [] \<and>
   filter (apply_started ItemMovie) (calls (snd (SyncOnce outage (app_on empty_db)))) = [] \<and>
   FetchStarted ''ez'' ItemMovie \<in> set (calls (snd (SyncOnce outage (app_on empty_db)))) \<and>
   FetchStarted ''ez'' ItemEpisode \<in> set (calls (snd (SyncOnce outage (app_on empty_db))))"
proof -
  have h: "fst (fetchUpdatesFromJellyfin outage ItemMovie (app_on empty_db)) \<noteq> []"
    by (simp add: outage_def unreachable_def app_on_def fetch_defs empty_db_def)
  have c: "calls (app_on empty_db) = []" "(''ez'', lister []) \<in> set (clients outage)"
    by (simp_all add: app_on_def outage_def)
  from fetch_errors_in_cycle[of outage "app_on empty_db"] h c show ?thesis by auto
qed

lemma outage_cycle:
  "SyncOnce outage (app_on empty_db) =
     ([RequestFailed ''status 503'', RequestFailed ''status 503''],
      \<lparr> db = empty_db,
        counter = 1, syncIntervalMinutes = 5, fullSyncIntervalMinutes = 360,
        calls = [FetchStarted ''dd'' ''Movie'', FetchStarted ''ez'' ''Movie'',
                 ItemsRequested ''ez'' (full_opts ''Movie''),
                 FetchStarted ''dd'' ''Episode'', FetchStarted ''ez'' ''Episode'',
                 ItemsRequested ''ez'' (full_opts ''Episode'')] \<rparr>)"
  by (simp add: SyncOnce_def syncMoviesWatchedState_def syncEpisodesWatchedState_def
      outage_def unreachable_def app_on_def fetch_defs empty_db_def)

text \<open>
  C7 as stated has the apply phase run for every server although a fetch failed. In this
  cycle, on the schema of the migration, \<open>dd\<close> cannot be reached while \<open>ez\<close> answers: the
  fetch of \<open>ez\<close> is carried out for both item types, and the two errors of \<open>dd\<close> are
  returned, but \<open>syncMoviesWatchedState\<close> and \<open>syncEpisodesWatchedState\<close> return on the error
  of the fetch phase, and the apply phase is entered for no server: the cycle makes no other
  call than those of the fetch phases and stores no watermark.
\<close>

theorem apply_phase_skipped_counterexample:
  "fst (SyncOnce outage (app_on empty_db)) =
     [RequestFailed ''status 503'', RequestFailed ''status 503''] \<and>
   set (calls (snd (SyncOnce outage (app_on empty_db)))) =
     {FetchStarted ''dd'' ItemMovie, FetchStarted ''ez'' ItemMovie,
      ItemsRequested ''ez'' (full_opts ItemMovie),
      FetchStarted ''dd'' ItemEpisode, FetchStarted ''ez'' ItemEpisode,
      ItemsRequested ''ez'' (full_opts ItemEpisode)} \<and>
   ApplyStarted ''ez'' ItemMovie \<notin> set (calls (snd (SyncOnce outage (app_on empty_db)))) \<and>
   ApplyStarted ''ez'' ItemEpisode \<notin> set (calls (snd (SyncOnce outage (app_on empty_db)))) \<and>
   state (db (snd (SyncOnce outage (app_on empty_db)))) (''ez'', ItemMovie) = None \<and>
   state (db (snd (SyncOnce outage (app_on empty_db)))) (''ez'', ItemEpisode) = None"
  unfolding outage_cycle by (auto simp: ItemMovie_def ItemEpisode_def empty_db_def)

section \<open>Cooldown shedding (C6)\<close>

text \<open>
  When every event of a burst carries a channel with a receiver, the loop behaves as
  described: the first event starts the one sync of the burst and is answered with nil,
  each later one is answered with \<open>too many requests\<close>.
\<close>

lemma cooldown_rejects_live:
  "\<lbrakk>cooldown d; \<not> blocked d; \<not> exited d\<rbrakk> \<Longrightarrow>
   fold Sync_select
     (map (\<lambda>c. Event \<lparr>ev_Source = src, ev_Metadata = m, ev_Response = Some c\<rparr>) cs) d =
   d\<lparr>replies := replies d @ map (\<lambda>c. (c, ErrorReply ''too many requests'')) cs\<rparr>"
  by (induction cs arbitrary: d) (simp_all add: Sync_select_def)

lemma live_burst_shed:
  "Sync (map (\<lambda>c. Event \<lparr>ev_Source = src, ev_Metadata = m, ev_Response = Some c\<rparr>) (c0 # cs)) =
     \<lparr> cooldown = True, syncs = [AtStart, OnEvent],
       replies = (c0, NilReply) # map (\<lambda>c. (c, ErrorReply ''too many requests'')) cs,
       hanging = 0, blocked = False, exited = False \<rparr>"
proof -
  let ?d = "\<lparr> cooldown = True, syncs = [AtStart, OnEvent], replies = [(c0, NilReply)],
              hanging = 0, blocked = False, exited = False \<rparr>"
  have "Sync_select (Event \<lparr>ev_Source = src, ev_Metadata = m, ev_Response = Some c0\<rparr>)
          fresh_daemon = ?d"
    by (simp add: Sync_select_def fresh_daemon_def)
  then show ?thesis
    by (simp add: Sync_def cooldown_rejects_live[of ?d])
qed

text \<open>
  With the events of the webhook handler the loop does not get that far. The invariant
  \<open>burst_inv\<close> holds at the start and is kept by every POST and by every iteration of the
  loop.
\<close>

lemma replicate_snoc: "replicate n x @ [x] = replicate (Suc n) x"
  by (simp add: replicate_append_same)

lemma burst_inv_fresh: "burst_inv fresh_ingress"
  by (simp add: burst_inv_def fresh_ingress_def)

lemma burst_inv_post:
  assumes "burst_inv s" "req_Method r = ''POST''"
  shows "burst_inv (post r s)"
  using assms
  by (auto simp: burst_inv_def post_def handler_def hook_capacity_def replicate_snoc)

lemma burst_inv_receive:
  assumes "burst_inv s"
  shows "burst_inv (receive s)"
  using assms
  by (auto simp: burst_inv_def receive_def Let_def Sync_select_def fresh_daemon_def
      accepted_daemon_def replicate_snoc split: list.splits)

lemma burst_inv_fold:
  "burst_inv s \<Longrightarrow> \<forall>a\<in>set acts. is_POST a \<Longrightarrow> burst_inv (fold act acts s)"
proof (induction acts arbitrary: s)
  case Nil then show ?case by simp
next
  case (Cons a acts)
  then have "burst_inv (act a s)"
    by (cases a) (simp_all add: burst_inv_post burst_inv_receive)
  with Cons show ?case by simp
qed

text \<open>
  C6: N events within one cooldown window of a fresh daemon launch one sync and the other
  N - 1 events are answered with a rejection on their reply channel. The events that the
  webhook handler publishes do not behave so, however the POST requests of a burst and the
  iterations of the loop are interleaved. The handler builds each event without a reply
  channel, so no event is ever answered with a rejection. The first event the loop takes
  starts the one sync of the burst. The rejection of the second is a send on a nil channel
  with no timeout: the loop is stuck from then on and takes no third event. The handlers
  whose send completed, those of the events taken and of the one event the buffer holds,
  have written 200; every other handler waits in its send and writes nothing.
\<close>

theorem webhook_burst_blocks_loop:
  assumes "\<forall>a\<in>set acts. is_POST a"
  shows "replies (daemon (serve_burst acts)) = [] \<and>
         requests_total (serve_burst acts) \<le> 2 \<and>
         syncs (daemon (serve_burst acts)) =
           (if requests_total (serve_burst acts) = 0 then [AtStart] else [AtStart, OnEvent]) \<and>
         blocked (daemon (serve_burst acts)) = (requests_total (serve_burst acts) = 2) \<and>
         answers (serve_burst acts) =
           replicate (requests_total (serve_burst acts) + length (hook (serve_burst acts))) 200 \<and>
         length (hook (serve_burst acts)) \<le> 1"
proof -
  have "burst_inv (serve_burst acts)"
    unfolding serve_burst_def using burst_inv_fresh assms by (rule burst_inv_fold)
  then show ?thesis
    by (auto simp: burst_inv_def fresh_daemon_def accepted_daemon_def)
qed


theorem webhook_burst_blocks_loop_witness:
  "list_all is_POST
     [Post \<lparr>req_Method = ''POST'', req_ip = ''10.0.0.1''\<rparr>,
      Post \<lparr>req_Method = ''POST'', req_ip = ''10.0.0.2''\<rparr>, Receive,
      Post \<lparr>req_Method = ''POST'', req_ip = ''10.0.0.3''\<rparr>, Receive,
      Post \<lparr>req_Method = ''POST'', req_ip = ''10.0.0.4''\<rparr>,
      Post \<lparr>req_Method = ''POST'', req_ip = ''10.0.0.5''\<rparr>, Receive] \<and>
   serve_burst [Post \<lparr>req_Method = ''POST'', req_ip = ''10.0.0.1''\<rparr>,
                Post \<lparr>req_Method = ''POST'', req_ip = ''10.0.0.2''\<rparr>, Receive,
                Post \<lparr>req_Method = ''POST'', req_ip = ''10.0.0.3''\<rparr>, Receive,
                Post \<lparr>req_Method = ''POST'', req_ip = ''10.0.0.4''\<rparr>,
                Post \<lparr>req_Method = ''POST'', req_ip = ''10.0.0.5''\<rparr>, Receive] =
     \<lparr> daemon = \<lparr> cooldown = True, syncs = [AtStart, OnEvent], replies = [], hanging = 1,
                  blocked = True, exited = False \<rparr>,
       isShuttingDown = False,
       hook = [\<lparr>ev_Source = ''webhook'', ev_Metadata = ''10.0.0.3'', ev_Response = None\<rparr>],
       sending = [\<lparr>ev_Source = ''webhook'', ev_Metadata = ''10.0.0.4'', ev_Response = None\<rparr>,
                  \<lparr>ev_Source = ''webhook'', ev_Metadata = ''10.0.0.5'', ev_Response = None\<rparr>],
       answers = [200, 200, 200], requests_total = 2 \<rparr>"
  using webhook_burst_blocks_loop[of "[Post \<lparr>req_Method = ''POST'', req_ip = ''10.0.0.1''\<rparr>,
                Post \<lparr>req_Method = ''POST'', req_ip = ''10.0.0.2''\<rparr>, Receive,
                Post \<lparr>req_Method = ''POST'', req_ip = ''10.0.0.3''\<rparr>, Receive,
                Post \<lparr>req_Method = ''POST'', req_ip = ''10.0.0.4''\<rparr>,
                Post \<lparr>req_Method = ''POST'', req_ip = ''10.0.0.5''\<rparr>, Receive]"]
  by (simp add: serve_burst_def post_def receive_def handler_def hook_capacity_def
      fresh_ingress_def fresh_daemon_def Sync_select_def)

end
